theory Spec2Isabelle
  imports Main
begin

section \<open>Strings\<close>

text \<open>
  A Python \<open>str\<close> is a sequence of Unicode code points, so a string is a list of
  code points (natural numbers) and \<open>len\<close>, slicing and \<open>re\<close> work per code point.
  \<open>str\<close> writes an ASCII literal.
\<close>

type_synonym pystr = "nat list"

definition str :: "string \<Rightarrow> pystr" where
  "str s = map of_char s"

text \<open>
  The classes \<open>\s\<close> and \<open>\w\<close> of \<open>re\<close> (on \<open>str\<close> patterns) and the whitespace of
  \<open>str.strip()\<close> are fixed for ASCII and read from the interpreter's Unicode database
  above it. The database is not part of the repository: it is a parameter, giving for
  the code points from 128 on which are whitespace and which are alphanumeric.
\<close>

record unicode_db =
  uni_space :: "nat \<Rightarrow> bool"
  uni_alnum :: "nat \<Rightarrow> bool"

definition is_space :: "unicode_db \<Rightarrow> nat \<Rightarrow> bool" where
  "is_space U c = (if c < 128 then (9 \<le> c \<and> c \<le> 13) \<or> (28 \<le> c \<and> c \<le> 32) else uni_space U c)"

definition ascii_alnum :: "nat \<Rightarrow> bool" where
  "ascii_alnum c = ((48 \<le> c \<and> c \<le> 57) \<or> (65 \<le> c \<and> c \<le> 90) \<or> (97 \<le> c \<and> c \<le> 122))"

definition is_word :: "unicode_db \<Rightarrow> nat \<Rightarrow> bool" where
  "is_word U c = (if c < 128 then ascii_alnum c \<or> c = 95 else uni_alnum U c)"

text \<open>
  The rows U+0080 to U+00FF of the Unicode database (Latin-1 supplement), for concrete
  inputs: NEL and the no-break space are whitespace; the letters, the ordinal
  indicators, the micro sign, the superscript digits and the vulgar fractions are
  alphanumeric. No code point above U+00FF is classified by this table.
\<close>

definition latin1_db :: unicode_db where
  "latin1_db = \<lparr> uni_space = (\<lambda>c. c = 133 \<or> c = 160),
                  uni_alnum = (\<lambda>c. c = 170 \<or> c = 178 \<or> c = 179 \<or> c = 181 \<or> c = 185 \<or> c = 186
                                 \<or> c = 188 \<or> c = 189 \<or> c = 190
                                 \<or> (192 \<le> c \<and> c \<le> 214) \<or> (216 \<le> c \<and> c \<le> 246)
                                 \<or> (248 \<le> c \<and> c \<le> 255)) \<rparr>"

section \<open>Label sanitization\<close>

text \<open>\<open>s.strip()\<close>: whitespace dropped at both ends.\<close>

definition strip :: "unicode_db \<Rightarrow> pystr \<Rightarrow> pystr" where
  "strip U s = rev (dropWhile (is_space U) (rev (dropWhile (is_space U) s)))"

text \<open>\<open>re.sub(r"\s+", " ", s)\<close>: every maximal run of whitespace becomes one space.\<close>

function collapse_ws :: "unicode_db \<Rightarrow> pystr \<Rightarrow> pystr" where
  "collapse_ws U [] = []"
| "collapse_ws U (c # cs) =
     (if is_space U c then 32 # collapse_ws U (dropWhile (is_space U) cs)
      else c # collapse_ws U cs)"
  by pat_completeness auto
termination
  by (relation "measure (\<lambda>(U, s). length s)") (auto simp: le_imp_less_Suc length_dropWhile_le)

text \<open>
  \<open>re.sub(r"[^\w\-\. ]+", "", s)\<close> keeps the word characters, the hyphen (45), the
  full stop (46) and the space (32); \<open>s.replace(" ", "_")\<close>; \<open>s[:80]\<close>.
\<close>

definition kept :: "unicode_db \<Rightarrow> nat \<Rightarrow> bool" where
  "kept U c = (is_word U c \<or> c = 45 \<or> c = 46 \<or> c = 32)"

definition space_to_underscore :: "nat \<Rightarrow> nat" where
  "space_to_underscore c = (if c = 32 then 95 else c)"

definition sanitize_filename_component :: "unicode_db \<Rightarrow> pystr \<Rightarrow> pystr" where
  "sanitize_filename_component U s0 =
    (let s = strip U s0 in
     if s = [] then str ''untitled''
     else take 80 (map space_to_underscore (filter (kept U) (collapse_ws U s))))"

text \<open>
  The pipeline in the words of the specification, for comparison with the code: trim,
  collapse whitespace runs, drop every character outside letters, digits, hyphen, full
  stop and space, replace spaces by underscores, truncate to 80, and substitute the
  placeholder when the result is empty. The class of letters and digits is a parameter.
\<close>

definition sanitize_pipeline :: "(nat \<Rightarrow> bool) \<Rightarrow> unicode_db \<Rightarrow> pystr \<Rightarrow> pystr" where
  "sanitize_pipeline letter_or_digit U s =
    (let r = take 80 (map space_to_underscore
               (filter (\<lambda>c. letter_or_digit c \<or> c = 45 \<or> c = 46 \<or> c = 32)
                 (collapse_ws U (strip U s))))
     in if r = [] then str ''untitled'' else r)"

text \<open>The character class \<open>[A-Za-z0-9._-]\<close>.\<close>

definition filename_char :: "nat \<Rightarrow> bool" where
  "filename_char c = (ascii_alnum c \<or> c = 46 \<or> c = 95 \<or> c = 45)"

section \<open>Configuration, segments and the environment\<close>

record config =
  ffmpeg_path :: pystr
  buffer_dir :: pystr
  clips_dir :: pystr
  clip_length :: int
  segment_time :: int
  framerate :: int
  encoder :: pystr
  preset :: pystr
  gop :: int
  min_free_gb :: int

text \<open>
  A file \<open>buf-*.ts\<close> of the buffer directory: its path, its modification time (the sort
  key; only its order is used) and whether unlinking it raises (a file the capture
  process still holds open, on Windows).
\<close>

record segment =
  seg_path :: pystr
  st_mtime :: int
  locked :: bool

datatype py_exc = ZeroDivisionError | OverflowError | OSError

text \<open>
  \<open>subprocess.check_call\<close>: the process exits with a status (non-zero raises
  \<open>CalledProcessError\<close>), or it cannot be started (\<open>OSError\<close>).
\<close>

datatype proc_result = Exited int | SpawnFailed

datatype called_process_error = CalledProcessError int "pystr list"

text \<open>
  What \<open>save_clip\<close> reads from outside the program. \<open>psutil\<close>: the module was imported;
  \<open>usage_raises\<close>: \<open>psutil.disk_usage\<close> raises; \<open>free_bytes\<close>: the free space of the
  output volume; \<open>entries\<close>: the buffer directory as \<open>glob\<close> yields it;
  \<open>tmp_path\<close>: the name \<open>NamedTemporaryFile\<close> picks; \<open>unlink_raises\<close>: unlinking the
  manifest raises; \<open>float_quot\<close>: what \<open>int(a / b)\<close> gives where the float division
  rounds (see \<open>int_quot\<close>). Stat, \<open>mkdir\<close> and the creation of the temporary file are
  taken to succeed.
\<close>

record world =
  unicode :: unicode_db
  psutil :: bool
  usage_raises :: bool
  free_bytes :: nat
  entries :: "segment list"
  window_title :: pystr
  now_stamp :: pystr
  tmp_path :: pystr
  copy_proc :: proc_result
  reenc_proc :: proc_result
  unlink_raises :: bool
  float_quot :: "int \<Rightarrow> int \<Rightarrow> py_exc + int"

datatype level = ERROR | WARNING | INFO

text \<open>The operations a call performs, in order (debug-level log records are left out).\<close>

datatype event =
    DiskUsage pystr
  | Glob pystr
  | Mkdir pystr
  | WriteFile pystr "pystr list"
  | Run "pystr list"
  | Unlink pystr
  | Log level pystr
  | LogException pystr called_process_error
  | LogLowDisk nat nat
  | Notify pystr

datatype outcome = Returned "pystr option" | Raised py_exc

text \<open>
  A finished call: what it returned or raised, what it did, and the temporary files it
  left in the buffer directory.
\<close>

record run =
  outcome :: outcome
  trace :: "event list"
  temp_files :: "pystr list"

section \<open>Arithmetic\<close>

text \<open>The quotient of two integers truncated towards zero.\<close>

definition trunc_quot :: "int \<Rightarrow> int \<Rightarrow> int" where
  "trunc_quot a b = sgn a * sgn b * (\<bar>a\<bar> div \<bar>b\<bar>)"

text \<open>
  \<open>int(a / b)\<close> on integers. \<open>a / b\<close> is the float nearest to the quotient, and \<open>int\<close>
  truncates it. A zero divisor raises \<open>ZeroDivisionError\<close>. With both operands below
  \<open>2^53\<close> in magnitude the rounding never reaches the next integer, and the result is
  the truncated quotient. A quotient of \<open>2^1024\<close> or more is too large for a float and
  raises \<open>OverflowError\<close>. In between the float division rounds: what it gives
  (a rounded quotient, or \<open>OverflowError\<close> next to the largest float) is the
  interpreter's arithmetic, taken as the parameter \<open>rounded\<close>.
\<close>

definition float_exact :: "int \<Rightarrow> int \<Rightarrow> bool" where
  "float_exact a b = (\<bar>a\<bar> < 2 ^ 53 \<and> \<bar>b\<bar> < 2 ^ 53)"

definition int_quot :: "(int \<Rightarrow> int \<Rightarrow> py_exc + int) \<Rightarrow> int \<Rightarrow> int \<Rightarrow> py_exc + int" where
  "int_quot rounded a b =
     (if b = 0 then Inl ZeroDivisionError
      else if float_exact a b then Inr (trunc_quot a b)
      else if 2 ^ 1024 * \<bar>b\<bar> \<le> \<bar>a\<bar> then Inl OverflowError
      else rounded a b)"

text \<open>The ceiling of a quotient of integers, for the statements of the specification.\<close>

definition ceil_div :: "int \<Rightarrow> int \<Rightarrow> int" where
  "ceil_div a b = - ((- a) div b)"

fun digits :: "nat \<Rightarrow> pystr" where
  "digits n = (if n < 10 then [48 + n] else digits (n div 10) @ [48 + n mod 10])"

definition show_int :: "int \<Rightarrow> pystr" where
  "show_int i = (if i < 0 then 45 # digits (nat (- i)) else digits (nat i))"

section \<open>ClipAssembler.save\_clip\<close>

text \<open>\<open>length = length_seconds or self.cfg.clip_length\<close>: \<open>None\<close> and \<open>0\<close> are falsy.\<close>

definition effective_length :: "config \<Rightarrow> int option \<Rightarrow> int" where
  "effective_length cfg length_seconds =
     (case length_seconds of
        None \<Rightarrow> clip_length cfg
      | Some d \<Rightarrow> if d = 0 then clip_length cfg else d)"

text \<open>
  \<open>max(1, int((length + self.cfg.segment_time - 1) / self.cfg.segment_time))\<close>: the
  division may raise.
\<close>

definition needed_segments :: "config \<Rightarrow> world \<Rightarrow> int \<Rightarrow> py_exc + int" where
  "needed_segments cfg w len =
     (case int_quot (float_quot w) (len + segment_time cfg - 1) (segment_time cfg) of
        Inl e \<Rightarrow> Inl e
      | Inr q \<Rightarrow> Inr (max 1 q))"

definition space_floor :: nat where
  "space_floor = 300 * 1024 * 1024"

text \<open>
  The free-space check: it stops the call only when the probe is there, answers, and
  reports less than the floor.
\<close>

definition insufficient_space :: "world \<Rightarrow> bool" where
  "insufficient_space w = (psutil w \<and> \<not> usage_raises w \<and> free_bytes w < space_floor)"

text \<open>
  \<open>sorted(..., key=mtime, reverse=True)\<close>: a stable sort that keeps the listing's order
  among equal keys, which is the reverse of the stable ascending sort of the reversed
  listing.
\<close>

definition newest_first :: "segment list \<Rightarrow> segment list" where
  "newest_first es = rev (sort_key st_mtime (rev es))"

definition chosen_segments :: "int \<Rightarrow> segment list \<Rightarrow> segment list" where
  "chosen_segments needed es = rev (take (nat needed) (newest_first es))"

definition manifest_line :: "segment \<Rightarrow> pystr" where
  "manifest_line p = str ''file '' @ [39] @ seg_path p @ [39, 10]"

definition clip_filename :: "config \<Rightarrow> world \<Rightarrow> int \<Rightarrow> pystr" where
  "clip_filename cfg w len =
     now_stamp w @ str ''_'' @ (show_int len @ str ''s'') @ str ''_''
       @ sanitize_filename_component (unicode w) (window_title w) @ str ''.mp4''"

definition out_path :: "config \<Rightarrow> world \<Rightarrow> int \<Rightarrow> pystr" where
  "out_path cfg w len = clips_dir cfg @ str ''/'' @ clip_filename cfg w len"

definition copy_cmd :: "config \<Rightarrow> pystr \<Rightarrow> pystr \<Rightarrow> pystr list" where
  "copy_cmd cfg list_path out =
     [ffmpeg_path cfg, str ''-y'', str ''-f'', str ''concat'', str ''-safe'', str ''0'',
      str ''-i'', list_path, str ''-c'', str ''copy'', str ''-movflags'', str ''+faststart'', out]"

definition reenc_cmd :: "config \<Rightarrow> pystr \<Rightarrow> pystr \<Rightarrow> pystr list" where
  "reenc_cmd cfg list_path out =
     [ffmpeg_path cfg, str ''-y'', str ''-f'', str ''concat'', str ''-safe'', str ''0'',
      str ''-i'', list_path, str ''-c:v'', encoder cfg, str ''-preset'', preset cfg,
      str ''-pix_fmt'', str ''yuv420p'', out]"

definition emit :: "event \<Rightarrow> run \<Rightarrow> run" where
  "emit e r = r\<lparr>trace := trace r @ [e]\<rparr>"

definition finish :: "outcome \<Rightarrow> run \<Rightarrow> run" where
  "finish x r = r\<lparr>outcome := x\<rparr>"

text \<open>
  \<open>try: list_path.unlink(missing_ok=True) except Exception: pass\<close>, the body of both
  \<open>finally\<close> clauses.
\<close>

definition unlink_manifest :: "world \<Rightarrow> pystr \<Rightarrow> run \<Rightarrow> run" where
  "unlink_manifest w p r =
     (emit (Unlink p) r)\<lparr>temp_files :=
        (if unlink_raises w then temp_files r else removeAll p (temp_files r))\<rparr>"

text \<open>The \<open>except subprocess.CalledProcessError\<close> branch with its own \<open>finally\<close>.\<close>

definition fallback :: "config \<Rightarrow> world \<Rightarrow> pystr \<Rightarrow> pystr \<Rightarrow> run \<Rightarrow> run" where
  "fallback cfg w lp out r0 =
     (let r1 = emit (Log WARNING (str ''Fast concat failed; retrying with re-encode...'')) r0;
          r2 = emit (Run (reenc_cmd cfg lp out)) r1
      in unlink_manifest w lp
          (case reenc_proc w of
             Exited c \<Rightarrow>
               if c = 0 then
                 finish (Returned (Some out))
                   (emit (Notify (str ''Clip saved: '' @ out))
                     (emit (Log INFO (str ''Clip saved (re-encoded): '' @ out)) r2))
               else
                 finish (Returned None)
                   (emit (LogException (str ''Failed to assemble clip: %s'')
                            (CalledProcessError c (reenc_cmd cfg lp out))) r2)
           | SpawnFailed \<Rightarrow> finish (Raised OSError) r2))"

text \<open>From the output path to the outer \<open>finally\<close>.\<close>

definition assemble :: "config \<Rightarrow> world \<Rightarrow> int \<Rightarrow> segment list \<Rightarrow> event list \<Rightarrow> run" where
  "assemble cfg w len chosen t0 =
     (let out = out_path cfg w len;
          lp = tmp_path w;
          r0 = \<lparr> outcome = Returned None,
                 trace = t0 @ [Mkdir (clips_dir cfg), WriteFile lp (map manifest_line chosen),
                          Log INFO (str ''Assembling clip ('' @ show_int len @ str ''s) -> ''
                                      @ clip_filename cfg w len),
                          Run (copy_cmd cfg lp out)],
                 temp_files = [lp] \<rparr>
      in unlink_manifest w lp
          (case copy_proc w of
             Exited c \<Rightarrow>
               if c = 0 then
                 finish (Returned (Some out))
                   (emit (Notify (str ''Clip saved: '' @ out))
                     (emit (Log INFO (str ''Clip saved: '' @ out)) r0))
               else fallback cfg w lp out r0
           | SpawnFailed \<Rightarrow> finish (Raised OSError) r0))"

definition save_clip :: "config \<Rightarrow> world \<Rightarrow> int option \<Rightarrow> run" where
  "save_clip cfg w length_seconds =
     (let len = effective_length cfg length_seconds in
      case needed_segments cfg w len of
        Inl e \<Rightarrow> \<lparr> outcome = Raised e, trace = [], temp_files = [] \<rparr>
      | Inr needed \<Rightarrow>
          if insufficient_space w then
            \<lparr> outcome = Returned None,
              trace = [DiskUsage (clips_dir cfg),
                       Log ERROR (str ''Insufficient free space to save clip.'')],
              temp_files = [] \<rparr>
          else
            (let t0 = (if psutil w then [DiskUsage (clips_dir cfg)] else [])
                        @ [Glob (buffer_dir cfg)]
             in if newest_first (entries w) = [] then
                  \<lparr> outcome = Returned None,
                    trace = t0 @ [Log ERROR
                      (str ''No segments found; recording may not have started yet.'')],
                    temp_files = [] \<rparr>
                else assemble cfg w len (chosen_segments needed (entries w)) t0))"

text \<open>The notifications of a trace, for comparing what two calls signal.\<close>

fun notifications :: "event list \<Rightarrow> pystr list" where
  "notifications [] = []"
| "notifications (Notify m # es) = m # notifications es"
| "notifications (e # es) = notifications es"

section \<open>Recorder.\_cleanup\_loop\<close>

text \<open>\<open>int(self.cfg.clip_length / self.cfg.segment_time) * 3\<close>, computed before the loop.\<close>

definition capacity :: "config \<Rightarrow> world \<Rightarrow> py_exc + int" where
  "capacity cfg w =
     (case int_quot (float_quot w) (clip_length cfg) (segment_time cfg) of
        Inl e \<Rightarrow> Inl e
      | Inr q \<Rightarrow> Inr (q * 3))"

text \<open>
  \<open>p.unlink(missing_ok=True)\<close> on the buffer directory: a missing file is no error, a
  locked one raises.
\<close>

definition unlink_path :: "pystr \<Rightarrow> segment list \<Rightarrow> py_exc + segment list" where
  "unlink_path p dir =
     (if list_ex (\<lambda>q. seg_path q = p \<and> locked q) dir then Inl OSError
      else Inr (filter (\<lambda>q. seg_path q \<noteq> p) dir))"

text \<open>The capacity prune: each unlink in its own \<open>try\<close>, errors swallowed.\<close>

fun prune_each :: "pystr list \<Rightarrow> segment list \<Rightarrow> segment list" where
  "prune_each [] dir = dir"
| "prune_each (p # ps) dir =
     prune_each ps (case unlink_path p dir of Inl e \<Rightarrow> dir | Inr d \<Rightarrow> d)"

text \<open>
  The low-disk prune: the first unlink that raises ends the loop (the second component
  says so); what was unlinked before stays unlinked.
\<close>

fun prune_until_error :: "pystr list \<Rightarrow> segment list \<Rightarrow> segment list \<times> bool" where
  "prune_until_error [] dir = (dir, False)"
| "prune_until_error (p # ps) dir =
     (case unlink_path p dir of Inl e \<Rightarrow> (dir, True) | Inr d \<Rightarrow> prune_until_error ps d)"

text \<open>
  \<open>free_gb < self.cfg.min_free_gb\<close> with \<open>free_gb = usage.free / 1024 ** 3\<close>, compared
  exactly.
\<close>

definition low_disk :: "config \<Rightarrow> world \<Rightarrow> bool" where
  "low_disk cfg w = (psutil w \<and> \<not> usage_raises w \<and> int (free_bytes w) < min_free_gb cfg * 2 ^ 30)"

text \<open>
  One iteration of the loop body on the directory \<open>dir\<close>, with the capacity computed
  before the loop. Both prunes read \<open>segs\<close>, the listing taken at the start of the
  iteration.
\<close>

definition cleanup_tick :: "config \<Rightarrow> world \<Rightarrow> int \<Rightarrow> segment list \<Rightarrow> segment list \<times> event list" where
  "cleanup_tick cfg w cap dir =
     (let segs = sort_key st_mtime dir;
          d1 = (if int (length segs) > cap
                then prune_each (map seg_path (take (nat (int (length segs) - cap)) segs)) dir
                else dir)
      in if low_disk cfg w \<and> segs \<noteq> [] then
           (let count = max 1 (length segs div 10)
            in case prune_until_error (map seg_path (take count segs)) d1 of
                 (d2, raised) \<Rightarrow>
                   (d2, if raised then [] else [LogLowDisk (free_bytes w) count]))
         else (d1, []))"

text \<open>\<open>n\<close> iterations: the stop event is set during the \<open>n\<close>-th wait.\<close>

fun ticks :: "config \<Rightarrow> world \<Rightarrow> int \<Rightarrow> nat \<Rightarrow> segment list \<Rightarrow> segment list" where
  "ticks cfg w cap 0 dir = dir"
| "ticks cfg w cap (Suc n) dir = ticks cfg w cap n (fst (cleanup_tick cfg w cap dir))"

definition cleanup_loop :: "config \<Rightarrow> world \<Rightarrow> nat \<Rightarrow> segment list \<Rightarrow> py_exc + segment list" where
  "cleanup_loop cfg w n dir =
     (case capacity cfg w of
        Inl e \<Rightarrow> Inl e
      | Inr cap \<Rightarrow> Inr (ticks cfg w cap n dir))"

section \<open>Concrete inputs\<close>

text \<open>
  The default configuration, the segment \<open>buf-NNNNN.ts\<close> written at second
  \<open>10 * i\<close>, and an environment with fifteen segments (listed newest first by the
  directory), ten gigabytes free and both concatenations succeeding. No example
  divides operands of \<open>2^53\<close> or more, short of the overflow; \<open>float_quot\<close> is set to the
  truncated quotient.
\<close>

definition default_cfg :: config where
  "default_cfg = \<lparr> ffmpeg_path = str ''ffmpeg'', buffer_dir = str ''buffer'',
      clips_dir = str ''clips'', clip_length = 120, segment_time = 10, framerate = 60,
      encoder = str ''libx264'', preset = str ''veryfast'', gop = 120, min_free_gb = 2 \<rparr>"

definition buf_seg :: "nat \<Rightarrow> segment" where
  "buf_seg i = \<lparr> seg_path = str ''buffer/buf-'' @ replicate (5 - length (digits i)) 48
                              @ digits i @ str ''.ts'',
                 st_mtime = 10 * int i, locked = False \<rparr>"

definition example_world :: world where
  "example_world = \<lparr> unicode = latin1_db, psutil = True, usage_raises = False,
      free_bytes = 10737418240, entries = rev (map buf_seg [1..<16]),
      window_title = str ''My Awesome Game: Level #1!'',
      now_stamp = str ''20240101_120000'', tmp_path = str ''buffer/tmpk3x9.txt'',
      copy_proc = Exited 0, reenc_proc = Exited 0, unlink_raises = False,
      float_quot = (\<lambda>a b. Inr (trunc_quot a b)) \<rparr>"

section \<open>Helper lemmas\<close>

lemmas run_defs = unlink_manifest_def emit_def finish_def

lemma assemble_copy_ok:
  "copy_proc w = Exited 0 \<Longrightarrow>
   assemble cfg w len ch t0 =
     \<lparr> outcome = Returned (Some (out_path cfg w len)),
       trace = t0 @ [Mkdir (clips_dir cfg), WriteFile (tmp_path w) (map manifest_line ch),
                Log INFO (str ''Assembling clip ('' @ show_int len @ str ''s) -> ''
                            @ clip_filename cfg w len),
                Run (copy_cmd cfg (tmp_path w) (out_path cfg w len)),
                Log INFO (str ''Clip saved: '' @ out_path cfg w len),
                Notify (str ''Clip saved: '' @ out_path cfg w len),
                Unlink (tmp_path w)],
       temp_files = (if unlink_raises w then [tmp_path w] else []) \<rparr>"
  by (simp add: assemble_def run_defs Let_def)

lemma assemble_copy_spawn:
  "copy_proc w = SpawnFailed \<Longrightarrow>
   assemble cfg w len ch t0 =
     \<lparr> outcome = Raised OSError,
       trace = t0 @ [Mkdir (clips_dir cfg), WriteFile (tmp_path w) (map manifest_line ch),
                Log INFO (str ''Assembling clip ('' @ show_int len @ str ''s) -> ''
                            @ clip_filename cfg w len),
                Run (copy_cmd cfg (tmp_path w) (out_path cfg w len)),
                Unlink (tmp_path w)],
       temp_files = (if unlink_raises w then [tmp_path w] else []) \<rparr>"
  by (simp add: assemble_def run_defs Let_def)

lemma assemble_reenc_ok:
  "copy_proc w = Exited c \<Longrightarrow> c \<noteq> 0 \<Longrightarrow> reenc_proc w = Exited 0 \<Longrightarrow>
   assemble cfg w len ch t0 =
     \<lparr> outcome = Returned (Some (out_path cfg w len)),
       trace = t0 @ [Mkdir (clips_dir cfg), WriteFile (tmp_path w) (map manifest_line ch),
                Log INFO (str ''Assembling clip ('' @ show_int len @ str ''s) -> ''
                            @ clip_filename cfg w len),
                Run (copy_cmd cfg (tmp_path w) (out_path cfg w len)),
                Log WARNING (str ''Fast concat failed; retrying with re-encode...''),
                Run (reenc_cmd cfg (tmp_path w) (out_path cfg w len)),
                Log INFO (str ''Clip saved (re-encoded): '' @ out_path cfg w len),
                Notify (str ''Clip saved: '' @ out_path cfg w len),
                Unlink (tmp_path w), Unlink (tmp_path w)],
       temp_files = (if unlink_raises w then [tmp_path w] else []) \<rparr>"
  by (simp add: assemble_def fallback_def run_defs Let_def)

lemma assemble_reenc_fail:
  "copy_proc w = Exited c \<Longrightarrow> c \<noteq> 0 \<Longrightarrow> reenc_proc w = Exited c' \<Longrightarrow> c' \<noteq> 0 \<Longrightarrow>
   assemble cfg w len ch t0 =
     \<lparr> outcome = Returned None,
       trace = t0 @ [Mkdir (clips_dir cfg), WriteFile (tmp_path w) (map manifest_line ch),
                Log INFO (str ''Assembling clip ('' @ show_int len @ str ''s) -> ''
                            @ clip_filename cfg w len),
                Run (copy_cmd cfg (tmp_path w) (out_path cfg w len)),
                Log WARNING (str ''Fast concat failed; retrying with re-encode...''),
                Run (reenc_cmd cfg (tmp_path w) (out_path cfg w len)),
                LogException (str ''Failed to assemble clip: %s'')
                  (CalledProcessError c' (reenc_cmd cfg (tmp_path w) (out_path cfg w len))),
                Unlink (tmp_path w), Unlink (tmp_path w)],
       temp_files = (if unlink_raises w then [tmp_path w] else []) \<rparr>"
  by (simp add: assemble_def fallback_def run_defs Let_def)

lemma assemble_reenc_spawn:
  "copy_proc w = Exited c \<Longrightarrow> c \<noteq> 0 \<Longrightarrow> reenc_proc w = SpawnFailed \<Longrightarrow>
   assemble cfg w len ch t0 =
     \<lparr> outcome = Raised OSError,
       trace = t0 @ [Mkdir (clips_dir cfg), WriteFile (tmp_path w) (map manifest_line ch),
                Log INFO (str ''Assembling clip ('' @ show_int len @ str ''s) -> ''
                            @ clip_filename cfg w len),
                Run (copy_cmd cfg (tmp_path w) (out_path cfg w len)),
                Log WARNING (str ''Fast concat failed; retrying with re-encode...''),
                Run (reenc_cmd cfg (tmp_path w) (out_path cfg w len)),
                Unlink (tmp_path w), Unlink (tmp_path w)],
       temp_files = (if unlink_raises w then [tmp_path w] else []) \<rparr>"
  by (simp add: assemble_def fallback_def run_defs Let_def)

lemma assemble_cases:
  obtains "copy_proc w = Exited 0"
  | "copy_proc w = SpawnFailed"
  | c where "copy_proc w = Exited c" "c \<noteq> 0" "reenc_proc w = Exited 0"
  | c c' where "copy_proc w = Exited c" "c \<noteq> 0" "reenc_proc w = Exited c'" "c' \<noteq> 0"
  | c where "copy_proc w = Exited c" "c \<noteq> 0" "reenc_proc w = SpawnFailed"
  by (cases "copy_proc w"; cases "reenc_proc w") auto

lemma assemble_last_unlink: "last (trace (assemble cfg w len ch t0)) = Unlink (tmp_path w)"
  by (rule assemble_cases [of w])
     (simp_all add: assemble_copy_ok assemble_copy_spawn assemble_reenc_ok assemble_reenc_fail
        assemble_reenc_spawn)

lemma assemble_temp_files:
  "temp_files (assemble cfg w len ch t0) = (if unlink_raises w then [tmp_path w] else [])"
  by (rule assemble_cases [of w])
     (simp_all add: assemble_copy_ok assemble_copy_spawn assemble_reenc_ok assemble_reenc_fail
        assemble_reenc_spawn)

lemma sort_key_eq_Nil: "(sort_key f xs = []) = (xs = [])"
  using length_sort [of f xs] by (cases xs) auto

lemma newest_first_eq_Nil: "(newest_first es = []) = (es = [])"
  by (simp add: newest_first_def sort_key_eq_Nil)

lemma save_clip_raises:
  "needed_segments cfg w (effective_length cfg d) = Inl e \<Longrightarrow>
   save_clip cfg w d = \<lparr> outcome = Raised e, trace = [], temp_files = [] \<rparr>"
  by (simp add: save_clip_def Let_def)

lemma save_clip_assembles:
  "needed_segments cfg w (effective_length cfg d) = Inr m \<Longrightarrow>
   \<not> insufficient_space w \<Longrightarrow> entries w \<noteq> [] \<Longrightarrow>
   save_clip cfg w d =
     assemble cfg w (effective_length cfg d) (chosen_segments m (entries w))
       ((if psutil w then [DiskUsage (clips_dir cfg)] else []) @ [Glob (buffer_dir cfg)])"
  by (simp add: save_clip_def newest_first_eq_Nil Let_def)

lemma save_clip_blocked:
  "needed_segments cfg w (effective_length cfg d) = Inr m \<Longrightarrow> insufficient_space w \<Longrightarrow>
   save_clip cfg w d =
     \<lparr> outcome = Returned None,
       trace = [DiskUsage (clips_dir cfg), Log ERROR (str ''Insufficient free space to save clip.'')],
       temp_files = [] \<rparr>"
  by (simp add: save_clip_def Let_def)

lemma save_clip_empty:
  "needed_segments cfg w (effective_length cfg d) = Inr m \<Longrightarrow>
   \<not> insufficient_space w \<Longrightarrow> entries w = [] \<Longrightarrow>
   save_clip cfg w d =
     \<lparr> outcome = Returned None,
       trace = (if psutil w then [DiskUsage (clips_dir cfg)] else []) @ [Glob (buffer_dir cfg),
                Log ERROR (str ''No segments found; recording may not have started yet.'')],
       temp_files = [] \<rparr>"
  by (simp add: save_clip_def newest_first_eq_Nil Let_def)

lemma write_means_assembled:
  assumes "WriteFile p ls \<in> set (trace (save_clip cfg w d))"
  shows "(\<exists>m. needed_segments cfg w (effective_length cfg d) = Inr m)
       \<and> \<not> insufficient_space w \<and> entries w \<noteq> []"
proof -
  obtain m where a: "needed_segments cfg w (effective_length cfg d) = Inr m"
    using assms by (cases "needed_segments cfg w (effective_length cfg d)")
      (auto simp: save_clip_raises)
  have b: "\<not> insufficient_space w"
    using assms a by (auto simp: save_clip_blocked)
  have c: "entries w \<noteq> []"
    using assms a b by (auto simp: save_clip_empty split: if_splits)
  from a b c show ?thesis by blast
qed

lemmas assemble_exits = assemble_copy_ok assemble_copy_spawn assemble_reenc_ok
  assemble_reenc_fail assemble_reenc_spawn

lemma needed_nonpositive:
  assumes "len < 0" "0 < st"
  shows "max 1 (trunc_quot (len + st - 1) st) = 1"
proof -
  have "trunc_quot (len + st - 1) st \<le> 0"
  proof (cases "len + st - 1 < 0")
    case True
    then have "trunc_quot (len + st - 1) st = - (\<bar>len + st - 1\<bar> div st)"
      using assms by (simp add: trunc_quot_def)
    moreover have "0 \<le> \<bar>len + st - 1\<bar> div st"
      using assms by (simp add: pos_imp_zdiv_nonneg_iff)
    ultimately show ?thesis by simp
  next
    case False
    then have "0 \<le> len + st - 1" "len + st - 1 < st" using assms by auto
    then have "(len + st - 1) div st = 0" by (simp add: div_pos_pos_trivial)
    then show ?thesis using False assms by (simp add: trunc_quot_def sgn_if)
  qed
  then show ?thesis by simp
qed

lemma needed_exact:
  assumes "segment_time cfg \<noteq> 0"
    and "float_exact (len + segment_time cfg - 1) (segment_time cfg)"
  shows "needed_segments cfg w len =
           Inr (max 1 (trunc_quot (len + segment_time cfg - 1) (segment_time cfg)))"
  using assms by (simp add: needed_segments_def int_quot_def)

lemma save_clip_zero_is_default: "save_clip cfg w (Some 0) = save_clip cfg w None"
  by (simp add: save_clip_def effective_length_def)

lemma save_clip_trace_hd:
  assumes "needed_segments cfg w (effective_length cfg d) = Inr m"
  shows "trace (save_clip cfg w d) \<noteq> []
       \<and> hd (trace (save_clip cfg w d)) =
           (if psutil w then DiskUsage (clips_dir cfg) else Glob (buffer_dir cfg))"
proof (cases "insufficient_space w")
  case True
  then show ?thesis
    using save_clip_blocked [OF assms True] by (simp add: insufficient_space_def)
next
  case False
  show ?thesis
  proof (cases "entries w = []")
    case True
    then show ?thesis using save_clip_empty [OF assms False True] by simp
  next
    case ne: False
    show ?thesis
      by (rule assemble_cases [of w])
         (simp_all add: save_clip_assembles [OF assms False ne] assemble_exits)
  qed
qed

lemma save_clip_copy_ok:
  assumes "needed_segments cfg w (effective_length cfg d) = Inr m"
    "\<not> insufficient_space w" "entries w \<noteq> []" "copy_proc w = Exited 0"
  shows "outcome (save_clip cfg w d) = Returned (Some (out_path cfg w (effective_length cfg d)))"
  using assms(4) by (simp add: save_clip_assembles [OF assms(1,2,3)] assemble_copy_ok)

lemma str_no_segments_neq:
  "str ''Insufficient free space to save clip.''
     \<noteq> str ''No segments found; recording may not have started yet.''"
  by (simp add: str_def)

lemma save_clip_free_irrelevant:
  assumes "\<not> psutil w \<or> usage_raises w"
  shows "save_clip cfg (w\<lparr>free_bytes := f\<rparr>) d = save_clip cfg w d"
  using assms
  by (auto simp: save_clip_def insufficient_space_def assemble_def fallback_def
      unlink_manifest_def out_path_def clip_filename_def needed_segments_def Let_def
      split: sum.splits proc_result.splits)

lemma no_insufficient_report:
  assumes "\<not> insufficient_space w"
  shows "Log ERROR (str ''Insufficient free space to save clip.'') \<notin> set (trace (save_clip cfg w d))"
proof (cases "needed_segments cfg w (effective_length cfg d)")
  case (Inl e)
  then show ?thesis by (simp add: save_clip_raises)
next
  case (Inr m)
  show ?thesis
  proof (cases "entries w = []")
    case True
    then show ?thesis
      using save_clip_empty [OF Inr assms True] by (simp add: str_no_segments_neq)
  next
    case ne: False
    show ?thesis
      by (rule assemble_cases [of w])
         (simp_all add: save_clip_assembles [OF Inr assms ne] assemble_exits)
  qed
qed

lemma save_clip_lists_segments:
  assumes "needed_segments cfg w (effective_length cfg d) = Inr m" "\<not> insufficient_space w"
  shows "Glob (buffer_dir cfg) \<in> set (trace (save_clip cfg w d))"
proof (cases "entries w = []")
  case True
  then show ?thesis using save_clip_empty [OF assms True] by simp
next
  case ne: False
  show ?thesis
    by (rule assemble_cases [of w])
       (simp_all add: save_clip_assembles [OF assms ne] assemble_exits)
qed

lemma tick_without_low_disk:
  "\<not> low_disk cfg w \<Longrightarrow>
   cleanup_tick cfg w cap dir =
     (if int (length dir) > cap
      then prune_each (map seg_path (take (nat (int (length dir) - cap)) (sort_key st_mtime dir))) dir
      else dir, [])"
  by (simp add: cleanup_tick_def Let_def)



lemma sort_key_rev_distinct:
  assumes "distinct (map f xs)"
  shows "sort_key f (rev xs) = sort_key f xs"
proof -
  have inj: "inj_on f (set xs)" and dx: "distinct xs"
    using assms by (simp_all add: distinct_map)
  have "map f (sort_key f (rev xs)) = map f (sort_key f xs)"
    by (rule sorted_distinct_set_unique) (simp_all add: distinct_map inj dx)
  then show ?thesis
    by (rule map_inj_on) (simp add: inj)
qed

lemma chosen_window:
  assumes "distinct (map st_mtime es)"
  shows "chosen_segments m es = drop (length es - nat m) (sort_key st_mtime es)"
  by (simp add: chosen_segments_def newest_first_def rev_take sort_key_rev_distinct [OF assms])

lemma save_clip_writes_manifest:
  assumes "needed_segments cfg w (effective_length cfg d) = Inr m"
    "\<not> insufficient_space w" "entries w \<noteq> []"
  shows "WriteFile (tmp_path w) (map manifest_line (chosen_segments m (entries w)))
         \<in> set (trace (save_clip cfg w d))"
  by (rule assemble_cases [of w])
     (simp_all add: save_clip_assembles [OF assms] assemble_exits)


lemma prune_each_unlocked:
  "\<forall>q\<in>set dir. seg_path q \<in> set ps \<longrightarrow> \<not> locked q \<Longrightarrow>
   prune_each ps dir = filter (\<lambda>q. seg_path q \<notin> set ps) dir"
proof (induction ps arbitrary: dir)
  case Nil
  then show ?case by simp
next
  case (Cons p ps)
  have nl: "\<not> list_ex (\<lambda>q. seg_path q = p \<and> locked q) dir"
    using Cons.prems by (auto simp: list_ex_iff)
  have "prune_each ps (filter (\<lambda>q. seg_path q \<noteq> p) dir) =
        filter (\<lambda>q. seg_path q \<notin> set ps) (filter (\<lambda>q. seg_path q \<noteq> p) dir)"
    using Cons.prems by (intro Cons.IH) auto
  then show ?case
    using nl by (simp add: unlink_path_def conj_commute)
qed

lemma filter_paths_of_prefix:
  assumes "distinct (map seg_path dir)"
  shows "filter (\<lambda>q. seg_path q \<notin> seg_path ` set (take k (sort_key st_mtime dir))) dir =
         filter (\<lambda>q. q \<in> set (drop k (sort_key st_mtime dir))) dir"
proof (rule filter_cong [OF refl])
  fix q assume q: "q \<in> set dir"
  let ?s = "sort_key st_mtime dir"
  have inj: "inj_on seg_path (set dir)" and d: "distinct dir"
    using assms by (simp_all add: distinct_map)
  have ds: "distinct ?s" using d by simp
  have sub: "set (take k ?s) \<subseteq> set dir" using set_take_subset [of k ?s] by simp
  have "seg_path q \<in> seg_path ` set (take k ?s) \<longleftrightarrow> q \<in> set (take k ?s)"
    using inj q sub by (auto dest: inj_onD)
  moreover have "q \<in> set (take k ?s) \<longleftrightarrow> q \<notin> set (drop k ?s)"
  proof -
    have "set (take k ?s) \<inter> set (drop k ?s) = {}"
      using ds by (rule set_take_disj_set_drop_if_distinct) simp
    moreover have "set (take k ?s) \<union> set (drop k ?s) = set dir"
      using set_append [of "take k ?s" "drop k ?s"] by simp
    ultimately show ?thesis using q by auto
  qed
  ultimately show "(seg_path q \<notin> seg_path ` set (take k ?s)) = (q \<in> set (drop k ?s))"
    by simp
qed

lemma remaining_newest:
  assumes "distinct (map seg_path dir)"
  shows "set (filter (\<lambda>q. q \<in> set (drop k (sort_key st_mtime dir))) dir) =
           set (drop k (sort_key st_mtime dir))"
    and "length (filter (\<lambda>q. q \<in> set (drop k (sort_key st_mtime dir))) dir) = length dir - k"
    and "\<forall>a\<in>set dir - set (drop k (sort_key st_mtime dir)).
           \<forall>b\<in>set (drop k (sort_key st_mtime dir)). st_mtime a \<le> st_mtime b"
proof -
  let ?s = "sort_key st_mtime dir"
  have d: "distinct dir" using assms(1) by (simp add: distinct_map)
  have sub: "set (drop k ?s) \<subseteq> set dir" using set_drop_subset [of k ?s] by simp
  show "set (filter (\<lambda>q. q \<in> set (drop k ?s)) dir) = set (drop k ?s)" using sub by auto
  have "length (filter (\<lambda>q. q \<in> set (drop k ?s)) dir) = card ({q. q \<in> set (drop k ?s)} \<inter> set dir)"
    using d by (rule distinct_length_filter)
  also have "{q. q \<in> set (drop k ?s)} \<inter> set dir = set (drop k ?s)" using sub by auto
  also have "card (set (drop k ?s)) = length (drop k ?s)"
    using d by (intro distinct_card distinct_drop) simp
  finally show "length (filter (\<lambda>q. q \<in> set (drop k ?s)) dir) = length dir - k" by simp
  have "sorted (map st_mtime (take k ?s @ drop k ?s))" by simp
  then have le: "\<forall>a\<in>set (take k ?s). \<forall>b\<in>set (drop k ?s). st_mtime a \<le> st_mtime b"
    unfolding map_append sorted_append by auto
  have "set dir - set (drop k ?s) \<subseteq> set (take k ?s)"
    using set_append [of "take k ?s" "drop k ?s"] by auto
  then show "\<forall>a\<in>set dir - set (drop k ?s). \<forall>b\<in>set (drop k ?s). st_mtime a \<le> st_mtime b"
    using le by blast
qed

lemma tick_capacity_prune:
  assumes "0 \<le> C" "C < int (length dir)" "distinct (map seg_path dir)" "\<not> low_disk cfg w"
    and "\<forall>q\<in>set (take (length dir - nat C) (sort_key st_mtime dir)). \<not> locked q"
  shows "cleanup_tick cfg w C dir =
           (filter (\<lambda>q. q \<in> set (drop (length dir - nat C) (sort_key st_mtime dir))) dir, [])"
proof -
  let ?k = "length dir - nat C"
  let ?s = "sort_key st_mtime dir"
  have k: "nat (int (length dir) - C) = ?k" using assms(1,2) by simp
  have inj: "inj_on seg_path (set dir)" using assms(3) by (simp add: distinct_map)
  have sub: "set (take ?k ?s) \<subseteq> set dir" using set_take_subset [of ?k ?s] by simp
  have "\<forall>q\<in>set dir. seg_path q \<in> set (map seg_path (take ?k ?s)) \<longrightarrow> \<not> locked q"
  proof (intro ballI impI)
    fix q assume q: "q \<in> set dir" and "seg_path q \<in> set (map seg_path (take ?k ?s))"
    then obtain q' where q': "q' \<in> set (take ?k ?s)" "seg_path q = seg_path q'" by auto
    with inj q sub have "q = q'" by (auto dest: inj_onD)
    with q' assms(5) show "\<not> locked q" by simp
  qed
  then have "prune_each (map seg_path (take ?k ?s)) dir =
             filter (\<lambda>q. seg_path q \<notin> set (map seg_path (take ?k ?s))) dir"
    by (rule prune_each_unlocked)
  then show ?thesis
    using assms(2,4) by (simp add: tick_without_low_disk k filter_paths_of_prefix [OF assms(3)])
qed

lemma ticks_stable:
  assumes "int (length dir) \<le> C" "\<not> low_disk cfg w"
  shows "ticks cfg w C n dir = dir"
  using assms by (induction n) (simp_all add: tick_without_low_disk)

lemma capacity_in_range:
  assumes "segment_time cfg \<noteq> 0" and "float_exact (clip_length cfg) (segment_time cfg)"
  shows "capacity cfg w = Inr (trunc_quot (clip_length cfg) (segment_time cfg) * 3)"
  using assms by (simp add: capacity_def int_quot_def)

lemma capacity_exact:
  assumes "capacity cfg w = Inr C" and "segment_time cfg dvd clip_length cfg"
    and "float_exact (clip_length cfg) (segment_time cfg)"
  shows "C = ceil_div (clip_length cfg) (segment_time cfg) * 3"
proof -
  have nz: "segment_time cfg \<noteq> 0"
    using assms(1) by (auto simp: capacity_def int_quot_def)
  have C: "C = trunc_quot (clip_length cfg) (segment_time cfg) * 3"
    using assms(1) capacity_in_range [OF nz assms(3), of w] by simp
  from assms(2) obtain k where k: "clip_length cfg = segment_time cfg * k" by (rule dvdE)
  have "trunc_quot (segment_time cfg * k) (segment_time cfg) = k"
    using nz by (simp add: trunc_quot_def sgn_mult abs_mult) (simp add: sgn_if)
  moreover have "ceil_div (segment_time cfg * k) (segment_time cfg) = k"
    using nz by (simp add: ceil_div_def flip: mult_minus_right)
  ultimately show ?thesis using C k by simp
qed

lemma buf_seg_sel: "st_mtime (buf_seg i) = 10 * int i" "locked (buf_seg i) = False"
  by (simp_all add: buf_seg_def)

lemma default_cfg_sel:
  "segment_time default_cfg = 10" "clip_length default_cfg = 120" "min_free_gb default_cfg = 2"
  "clips_dir default_cfg = str ''clips''" "buffer_dir default_cfg = str ''buffer''"
  by (simp_all add: default_cfg_def)

lemma example_world_sel:
  "psutil example_world" "\<not> usage_raises example_world"
  "free_bytes example_world = 10737418240"
  "entries example_world = rev (map buf_seg [1..<16])"
  "copy_proc example_world = Exited 0" "reenc_proc example_world = Exited 0"
  "\<not> unlink_raises example_world" "tmp_path example_world = str ''buffer/tmpk3x9.txt''"
  "unicode example_world = latin1_db"
  "window_title example_world = str ''My Awesome Game: Level #1!''"
  "now_stamp example_world = str ''20240101_120000''"
  by (simp_all add: example_world_def)

lemma buf_segs_mtimes: "map st_mtime (map buf_seg [a..<b]) = map (\<lambda>i. 10 * int i) [a..<b]"
  by (simp add: buf_seg_sel comp_def)

lemma buf_segs_sorted: "sorted (map st_mtime (map buf_seg [a..<b]))"
  unfolding buf_segs_mtimes by (simp add: sorted_map sorted_wrt_iff_nth_less)

lemma buf_segs_distinct: "distinct (map st_mtime (map buf_seg [a..<b]))"
  unfolding buf_segs_mtimes by (simp add: distinct_map inj_on_def)

lemma buf_segs_sort: "sort_key st_mtime (map buf_seg [a..<b]) = map buf_seg [a..<b]"
  by (rule sort_key_id_if_sorted) (rule buf_segs_sorted)

lemma example_title:
  "sanitize_filename_component latin1_db (str ''My Awesome Game: Level #1!'') = str ''My_Awesome_Game_Level_1''"
  by code_simp

lemma prune_until_error_unlocked:
  "\<forall>q\<in>set dir. seg_path q \<in> set ps \<longrightarrow> \<not> locked q \<Longrightarrow>
   prune_until_error ps dir = (filter (\<lambda>q. seg_path q \<notin> set ps) dir, False)"
proof (induction ps arbitrary: dir)
  case Nil
  then show ?case by simp
next
  case (Cons p ps)
  have nl: "\<not> list_ex (\<lambda>q. seg_path q = p \<and> locked q) dir"
    using Cons.prems by (auto simp: list_ex_iff)
  have "prune_until_error ps (filter (\<lambda>q. seg_path q \<noteq> p) dir) =
        (filter (\<lambda>q. seg_path q \<notin> set ps) (filter (\<lambda>q. seg_path q \<noteq> p) dir), False)"
    using Cons.prems by (intro Cons.IH) auto
  then show ?case
    using nl by (simp add: unlink_path_def conj_commute)
qed

lemma filter_suffix_distinct:
  assumes "distinct xs"
  shows "filter (\<lambda>q. q \<in> set (drop k xs)) xs = drop k xs"
proof -
  have disj: "set (take k xs) \<inter> set (drop k xs) = {}"
    using assms by (rule set_take_disj_set_drop_if_distinct) simp
  have "filter (\<lambda>q. q \<in> set (drop k xs)) (take k xs @ drop k xs) = drop k xs"
    unfolding filter_append using disj by (auto simp: filter_empty_conv filter_id_conv)
  then show ?thesis by simp
qed

lemma tick_low_disk:
  assumes "low_disk cfg w" "dir \<noteq> []" "distinct (map seg_path dir)" "\<forall>q\<in>set dir. \<not> locked q"
    and "sorted (map st_mtime dir)"
  shows "cleanup_tick cfg w C dir =
           (drop (max (if C < int (length dir) then nat (int (length dir) - C) else 0)
                      (max 1 (length dir div 10))) dir,
            [LogLowDisk (free_bytes w) (max 1 (length dir div 10))])"
proof -
  define k where "k = (if C < int (length dir) then nat (int (length dir) - C) else 0)"
  define c where "c = max 1 (length dir div 10)"
  have s: "sort_key st_mtime dir = dir" using assms(5) by (rule sort_key_id_if_sorted)
  have d: "distinct dir" and inj: "inj_on seg_path (set dir)"
    using assms(3) by (simp_all add: distinct_map)
  have pre: "filter (\<lambda>q. seg_path q \<notin> seg_path ` set (take j dir)) dir = drop j dir" for j
    using filter_paths_of_prefix [OF assms(3), of j] filter_suffix_distinct [OF d, of j]
    by (simp add: s)
  have p1: "prune_each (map seg_path (take j dir)) dir = drop j dir" for j
    using prune_each_unlocked [of dir "map seg_path (take j dir)"] assms(4) pre [of j] by simp
  have d1: "(if int (length dir) > C
             then prune_each (map seg_path (take (nat (int (length dir) - C)) dir)) dir
             else dir) = drop k dir"
    by (simp add: p1 k_def)
  have "\<forall>q\<in>set (drop k dir). seg_path q \<in> set (map seg_path (take c dir)) \<longrightarrow> \<not> locked q"
    using assms(4) by (meson in_set_dropD)
  then have pe: "prune_until_error (map seg_path (take c dir)) (drop k dir) =
      (filter (\<lambda>q. seg_path q \<notin> set (map seg_path (take c dir))) (drop k dir), False)"
    by (rule prune_until_error_unlocked)
  have "filter (\<lambda>q. seg_path q \<notin> seg_path ` set (take c dir)) (drop k dir) =
        filter (\<lambda>q. q \<in> set (drop c dir)) (drop k dir)"
  proof (rule filter_cong [OF refl])
    fix q assume "q \<in> set (drop k dir)"
    then have q: "q \<in> set dir" by (rule in_set_dropD)
    have sub: "set (take c dir) \<subseteq> set dir" by (rule set_take_subset)
    have "seg_path q \<in> seg_path ` set (take c dir) \<longleftrightarrow> q \<in> set (take c dir)"
      using inj q sub by (auto dest: inj_onD)
    moreover have "q \<in> set (take c dir) \<longleftrightarrow> q \<notin> set (drop c dir)"
    proof -
      have "set (take c dir) \<inter> set (drop c dir) = {}"
        using d by (rule set_take_disj_set_drop_if_distinct) simp
      moreover have "set (take c dir) \<union> set (drop c dir) = set dir"
        using set_append [of "take c dir" "drop c dir"] by simp
      ultimately show ?thesis using q by auto
    qed
    ultimately show "(seg_path q \<notin> seg_path ` set (take c dir)) = (q \<in> set (drop c dir))"
      by simp
  qed
  also have "\<dots> = drop (max k c) dir"
  proof (cases "c \<le> k")
    case True
    have "set (drop k dir) \<subseteq> set (drop c dir)"
      using True by (rule set_drop_subset_set_drop)
    then have "filter (\<lambda>q. q \<in> set (drop c dir)) (drop k dir) = drop k dir"
      by (auto simp: filter_id_conv)
    then show ?thesis using True by (simp add: max_def)
  next
    case False
    then have le: "k \<le> c" by simp
    have "drop c dir = drop (c - k) (drop k dir)" using le by simp
    moreover have "distinct (drop k dir)" using d by simp
    ultimately have "filter (\<lambda>q. q \<in> set (drop c dir)) (drop k dir) = drop (c - k) (drop k dir)"
      using filter_suffix_distinct [of "drop k dir" "c - k"] by simp
    then show ?thesis using le by (simp add: max_def)
  qed
  finally have "prune_until_error (map seg_path (take c dir)) (drop k dir) = (drop (max k c) dir, False)"
    using pe by simp
  then show ?thesis
    using assms(1,2) unfolding cleanup_tick_def Let_def s d1 c_def [symmetric]
    by (simp add: k_def)
qed

lemma pad_zeros: "replicate 4 x = [x, x, x, x]" "replicate 3 x = [x, x, x]"
  by (simp_all add: numeral_eq_Suc)

lemma paths40: "distinct (map seg_path (map buf_seg [1..<41]))"
  by (simp add: upt_rec buf_seg_def str_def pad_zeros)

lemma low_world: "low_disk default_cfg (example_world\<lparr>free_bytes := 1610612736\<rparr>)"
  by (simp add: low_disk_def example_world_sel default_cfg_sel)

lemma buf_segs_unlocked: "\<forall>q\<in>set (map buf_seg [a..<b]). \<not> locked q"
  by (simp add: buf_seg_sel)

lemma example_space: "\<not> insufficient_space example_world"
  by (simp add: insufficient_space_def example_world_sel space_floor_def)

lemma example_entries: "entries example_world \<noteq> []"
  by (simp add: example_world_sel)

lemma default_needed:
  "needed_segments default_cfg w (effective_length default_cfg (Some 120)) = Inr 12"
  "needed_segments default_cfg w (effective_length default_cfg (Some 300)) = Inr 30"
  "needed_segments default_cfg w (effective_length default_cfg (Some 0)) = Inr 12"
  "needed_segments default_cfg w (effective_length default_cfg (Some (- 5))) = Inr 1"
  "needed_segments default_cfg w (effective_length default_cfg None) = Inr 12"
  by (simp_all add: effective_length_def needed_segments_def int_quot_def float_exact_def
        trunc_quot_def default_cfg_sel)

lemma example_out_neg5:
  "out_path default_cfg example_world (- 5) =
     str ''clips/20240101_120000_-5s_My_Awesome_Game_Level_1.mp4''"
  by (simp add: out_path_def clip_filename_def example_world_sel default_cfg_sel example_title
        show_int_def)
     (simp add: str_def)

lemma example_out_120:
  "out_path default_cfg example_world 120 =
     str ''clips/20240101_120000_120s_My_Awesome_Game_Level_1.mp4''"
  by (simp add: out_path_def clip_filename_def example_world_sel default_cfg_sel example_title
        show_int_def)
     (simp add: str_def)

lemma example_chosen:
  "chosen_segments 12 (entries example_world) = map buf_seg [4..<16]"
proof -
  have "distinct (map st_mtime (entries example_world))"
    using buf_segs_distinct [of 1 16] by (simp add: example_world_sel rev_map [symmetric])
  then have "chosen_segments 12 (entries example_world) =
      drop (length (entries example_world) - nat 12) (sort_key st_mtime (entries example_world))"
    by (rule chosen_window)
  also have "sort_key st_mtime (entries example_world) = map buf_seg [1..<16]"
    using sort_key_rev_distinct [OF buf_segs_distinct, of 1 16] buf_segs_sort [of 1 16]
    by (simp add: example_world_sel)
  finally show ?thesis by (simp add: example_world_sel drop_map)
qed

lemma kept_eq: "kept U = (\<lambda>c. is_word U c \<or> c = 45 \<or> c = 46 \<or> c = 32)"
  by (rule ext) (simp add: kept_def)

lemma kept_after_replace:
  "kept U c \<Longrightarrow> is_word U (space_to_underscore c) \<or> space_to_underscore c = 45
     \<or> space_to_underscore c = 46"
  by (auto simp: kept_def space_to_underscore_def is_word_def)

lemma sanitize_chars:
  assumes "c \<in> set (sanitize_filename_component U s)"
  shows "is_word U c \<or> c = 45 \<or> c = 46"
proof (cases "strip U s = []")
  case True
  with assms have "c \<in> set (str ''untitled'')"
    by (simp add: sanitize_filename_component_def)
  then show ?thesis
    by (auto simp: str_def is_word_def ascii_alnum_def)
next
  case False
  with assms have "c \<in> set (take 80 (map space_to_underscore
      (filter (kept U) (collapse_ws U (strip U s)))))"
    by (simp add: sanitize_filename_component_def)
  then have "c \<in> space_to_underscore ` {x. kept U x}"
    by (auto dest!: in_set_takeD)
  then show ?thesis using kept_after_replace by auto
qed

lemma sanitize_length: "length (sanitize_filename_component U s) \<le> 80"
  by (simp add: sanitize_filename_component_def Let_def str_def)

lemma word_ascii: "c < 128 \<Longrightarrow> is_word U c \<or> c = 45 \<or> c = 46 \<Longrightarrow> filename_char c"
  by (auto simp: is_word_def filename_char_def)

lemma sanitize_refines:
  "strip U s = [] \<or> filter (kept U) (collapse_ws U (strip U s)) \<noteq> [] \<Longrightarrow>
   sanitize_filename_component U s = sanitize_pipeline (is_word U) U s"
  by (cases "strip U s = []")
     (auto simp: sanitize_filename_component_def sanitize_pipeline_def Let_def kept_eq)

lemma sanitize_blank:
  "strip U s = [] \<Longrightarrow> sanitize_filename_component U s = str ''untitled''"
  by (simp add: sanitize_filename_component_def)

lemma sanitize_no_space: "32 \<notin> set (sanitize_filename_component U s)"
  by (auto simp: sanitize_filename_component_def Let_def str_def space_to_underscore_def
      dest!: in_set_takeD)

lemma example_title_pipeline:
  "sanitize_pipeline (is_word latin1_db) latin1_db (str ''My Awesome Game: Level #1!'') =
     str ''My_Awesome_Game_Level_1''"
  by code_simp



lemma example_lengths:
  "effective_length default_cfg (Some 120) = 120" "effective_length default_cfg (Some 300) = 300"
  "effective_length default_cfg (Some 0) = 120" "effective_length default_cfg None = 120"
  "effective_length default_cfg (Some (- 5)) = - 5"
  "max 1 (ceil_div 120 (segment_time default_cfg)) = 12"
  "max 1 (ceil_div 300 (segment_time default_cfg)) = 30"
  by (simp_all add: effective_length_def ceil_div_def default_cfg_sel)

lemma example_exact:
  "float_exact (120 + segment_time default_cfg - 1) (segment_time default_cfg)"
  "float_exact (300 + segment_time default_cfg - 1) (segment_time default_cfg)"
  "float_exact (- 5 + segment_time default_cfg - 1) (segment_time default_cfg)"
  by (simp_all add: float_exact_def default_cfg_sel)


lemma example_not_low: "\<not> low_disk default_cfg example_world"
  by (simp add: low_disk_def example_world_sel default_cfg_sel)

lemma default_capacity: "capacity default_cfg w = Inr 36"
  by (simp add: capacity_def default_cfg_sel int_quot_def float_exact_def trunc_quot_def)

lemma paths15: "distinct (map seg_path (map buf_seg [1..<16]))"
  by (simp add: upt_rec buf_seg_def str_def pad_zeros)

text \<open>
  The capacity prune alone reaches a fixed point after one iteration: with a capacity
  \<open>C \<ge> 0\<close>, a static directory of more than \<open>C\<close> segments with distinct paths, no
  low-disk prune and no locked file among the excess, \<open>C\<close> segments remain, a
  further iteration changes nothing, and none of the remaining is older than a deleted
  one.
\<close>

lemma capacity_prune_fixed_point:
  assumes "capacity cfg w = Inr C" and "0 \<le> C" and "C < int (length dir)"
    and "distinct (map seg_path dir)" and "\<not> low_disk cfg w"
    and "list_all (\<lambda>q. \<not> locked q) (take (length dir - nat C) (sort_key st_mtime dir))"
    and "0 < n"
  shows "\<exists>remaining. cleanup_loop cfg w n dir = Inr remaining
            \<and> cleanup_tick cfg w C remaining = (remaining, [])
            \<and> length remaining = nat C
            \<and> set remaining = set (drop (length dir - nat C) (sort_key st_mtime dir))
            \<and> (\<forall>a\<in>set dir - set remaining. \<forall>b\<in>set remaining. st_mtime a \<le> st_mtime b)"
proof -
  define remaining where
    "remaining = filter (\<lambda>q. q \<in> set (drop (length dir - nat C) (sort_key st_mtime dir))) dir"
  note props = remaining_newest [OF assms(4), of "length dir - nat C", folded remaining_def]
  have unl: "\<forall>q\<in>set (take (length dir - nat C) (sort_key st_mtime dir)). \<not> locked q"
    using assms(6) by (simp add: list_all_iff)
  have len: "length remaining = nat C" using props(2) assms(2,3) by simp
  obtain m where n: "n = Suc m" using assms(7) by (cases n) auto
  have "ticks cfg w C n dir = ticks cfg w C m remaining"
    by (simp add: n tick_capacity_prune [OF assms(2,3,4,5) unl] remaining_def)
  also have "\<dots> = remaining"
    using len assms(2,5) by (intro ticks_stable) simp_all
  finally have "cleanup_loop cfg w n dir = Inr remaining"
    by (simp add: cleanup_loop_def assms(1))
  moreover have "cleanup_tick cfg w C remaining = (remaining, [])"
    using len assms(2,5) by (simp add: tick_without_low_disk)
  ultimately show ?thesis
    using len props(1,3) by blast
qed

lemma failing_copy_world:
  "\<not> insufficient_space (example_world\<lparr>copy_proc := Exited 1\<rparr>)"
  "entries (example_world\<lparr>copy_proc := Exited 1\<rparr>) \<noteq> []"
  "copy_proc (example_world\<lparr>copy_proc := Exited 1\<rparr>) = Exited 1"
  "reenc_proc (example_world\<lparr>copy_proc := Exited 1\<rparr>) = Exited 0"
  "\<not> insufficient_space (example_world\<lparr>copy_proc := Exited 1, reenc_proc := Exited 1\<rparr>)"
  "entries (example_world\<lparr>copy_proc := Exited 1, reenc_proc := Exited 1\<rparr>) \<noteq> []"
  "copy_proc (example_world\<lparr>copy_proc := Exited 1, reenc_proc := Exited 1\<rparr>) = Exited 1"
  "reenc_proc (example_world\<lparr>copy_proc := Exited 1, reenc_proc := Exited 1\<rparr>) = Exited 1"
  by (simp_all add: insufficient_space_def example_world_sel space_floor_def)

section \<open>Claims\<close>

subsection \<open>C1: a duration of zero or less\<close>

text \<open>
  C1 (as amended). The specification has \<open>save(d)\<close> reject every \<open>d \<le> 0\<close> with
  \<open>InvalidDurationError\<close> before any disk access. The code has no such check: a
  duration of \<open>0\<close> is falsy and stands for the configured clip length (the call is the
  call without a duration), a negative duration needs one segment when
  \<open>segment_time\<close> is positive, and the call then runs like any other. Its first
  operation is a disk access, the free-space probe when psutil is there and the
  listing of the buffer otherwise, and with enough space, a non-empty buffer and a
  successful stream copy it returns the path of a clip. This is for operands of the
  division below \<open>2^53\<close> in magnitude, where the float quotient is exact.
\<close>

theorem save_clip_nonpositive_duration:
  assumes "d \<le> 0" and "0 < segment_time cfg"
    and "float_exact (effective_length cfg (Some d) + segment_time cfg - 1) (segment_time cfg)"
  shows "save_clip cfg w (Some 0) = save_clip cfg w None
       \<and> (d < 0 \<longrightarrow> needed_segments cfg w (effective_length cfg (Some d)) = Inr 1)
       \<and> trace (save_clip cfg w (Some d)) \<noteq> []
       \<and> hd (trace (save_clip cfg w (Some d))) =
           (if psutil w then DiskUsage (clips_dir cfg) else Glob (buffer_dir cfg))
       \<and> (\<not> insufficient_space w \<and> entries w \<noteq> [] \<and> copy_proc w = Exited 0 \<longrightarrow>
            outcome (save_clip cfg w (Some d)) =
              Returned (Some (out_path cfg w (effective_length cfg (Some d)))))"
proof -
  have nz: "segment_time cfg \<noteq> 0" using assms by simp
  note n = needed_exact [OF nz assms(3), of w]
  have "d < 0 \<Longrightarrow> needed_segments cfg w (effective_length cfg (Some d)) = Inr 1"
    using n assms needed_nonpositive [of d "segment_time cfg"]
    by (simp add: effective_length_def)
  then show ?thesis
    using save_clip_zero_is_default save_clip_trace_hd [OF n] save_clip_copy_ok [OF n]
    by blast
qed

theorem save_clip_nonpositive_duration_witness:
  "(- 5 :: int) \<le> 0 \<and> 0 < segment_time default_cfg
   \<and> float_exact (effective_length default_cfg (Some (- 5)) + segment_time default_cfg - 1)
        (segment_time default_cfg)
   \<and> \<not> insufficient_space example_world \<and> entries example_world \<noteq> []
   \<and> copy_proc example_world = Exited 0
   \<and> needed_segments default_cfg example_world (effective_length default_cfg (Some (- 5))) = Inr 1
   \<and> hd (trace (save_clip default_cfg example_world (Some (- 5)))) = DiskUsage (str ''clips'')
   \<and> outcome (save_clip default_cfg example_world (Some (- 5))) =
       Returned (Some (str ''clips/20240101_120000_-5s_My_Awesome_Game_Level_1.mp4''))"
proof -
  have h1: "(- 5 :: int) \<le> 0" by simp
  have h2: "0 < segment_time default_cfg" by (simp add: default_cfg_sel)
  have h3: "float_exact (effective_length default_cfg (Some (- 5)) + segment_time default_cfg - 1)
        (segment_time default_cfg)"
    unfolding example_lengths by (rule example_exact)
  note t = save_clip_nonpositive_duration [OF h1 h2 h3, of example_world]
  from t h1 h2 h3 show ?thesis
    by (simp add: example_lengths example_space example_entries example_world_sel
          default_cfg_sel example_out_neg5)
qed

text \<open>
  The claim as stated fails for \<open>save(-5)\<close> and \<open>save(0)\<close> on fifteen segments: both list
  the buffer and return a clip.
\<close>

theorem save_clip_nonpositive_counterexample:
  "outcome (save_clip default_cfg example_world (Some (- 5))) =
       Returned (Some (str ''clips/20240101_120000_-5s_My_Awesome_Game_Level_1.mp4''))
   \<and> Glob (str ''buffer'') \<in> set (trace (save_clip default_cfg example_world (Some (- 5))))
   \<and> outcome (save_clip default_cfg example_world (Some 0)) =
       Returned (Some (str ''clips/20240101_120000_120s_My_Awesome_Game_Level_1.mp4''))
   \<and> Glob (str ''buffer'') \<in> set (trace (save_clip default_cfg example_world (Some 0)))"
  using save_clip_copy_ok [OF default_needed(4) example_space example_entries]
    save_clip_copy_ok [OF default_needed(3) example_space example_entries]
    save_clip_lists_segments [OF default_needed(4) example_space]
    save_clip_lists_segments [OF default_needed(3) example_space]
  by (simp add: example_lengths example_world_sel default_cfg_sel example_out_neg5 example_out_120)

subsection \<open>C2: the window of segments\<close>



subsection \<open>C3: the capacity bound\<close>

text \<open>
  C3. The capacity is computed as \<open>int(clip_length / segment_time) * 3\<close>, a
  truncation where the claim has a ceiling. With \<open>clip_length = 125\<close> and
  \<open>segment_time = 10\<close> it is 36, not \<open>ceil(125 / 10) * 3 = 39\<close>. With \<open>clip_length = 5\<close>
  and \<open>segment_time = 10\<close> it is 0 while \<open>save_clip\<close>, which rounds the same ratio up,
  needs one segment: the first iteration of the cleanup loop deletes all fifteen
  segments of the buffer.
\<close>

theorem capacity_truncates_quotient:
  "capacity (default_cfg\<lparr>clip_length := 125\<rparr>) example_world = Inr 36
   \<and> ceil_div 125 10 * 3 = (39::int)
   \<and> capacity (default_cfg\<lparr>clip_length := 5\<rparr>) example_world = Inr 0
   \<and> ceil_div 5 10 * 3 = (3::int)
   \<and> needed_segments (default_cfg\<lparr>clip_length := 5\<rparr>) example_world
        (effective_length (default_cfg\<lparr>clip_length := 5\<rparr>) None) = Inr 1
   \<and> cleanup_loop (default_cfg\<lparr>clip_length := 5\<rparr>) example_world (Suc 0) (map buf_seg [1..<16])
        = Inr []"
proof -
  let ?cfg = "default_cfg\<lparr>clip_length := 5\<rparr>"
  have c: "capacity ?cfg example_world = Inr 0"
    by (simp add: capacity_def default_cfg_def int_quot_def float_exact_def trunc_quot_def)
  have nl: "\<not> low_disk ?cfg example_world"
    by (simp add: low_disk_def example_world_sel default_cfg_def)
  have ul: "\<forall>q\<in>set (take (length (map buf_seg [1..<16]) - nat 0)
      (sort_key st_mtime (map buf_seg [1..<16]))). \<not> locked q"
    using buf_segs_unlocked [of 1 16] by (auto simp: buf_segs_sort dest!: in_set_takeD)
  have h0: "(0::int) \<le> 0" by simp
  have h1: "0 < int (length (map buf_seg [1..<16]))" by simp
  have "fst (cleanup_tick ?cfg example_world 0 (map buf_seg [1..<16])) = []"
    unfolding tick_capacity_prune [OF h0 h1 paths15 nl ul] by simp
  then have "cleanup_loop ?cfg example_world (Suc 0) (map buf_seg [1..<16]) = Inr []"
    unfolding cleanup_loop_def c by simp
  moreover have "capacity (default_cfg\<lparr>clip_length := 125\<rparr>) example_world = Inr 36"
    by (simp add: capacity_def default_cfg_def int_quot_def float_exact_def trunc_quot_def)
  moreover have "ceil_div 125 10 * 3 = (39::int)" "ceil_div 5 10 * 3 = (3::int)"
    by (simp_all add: ceil_div_def)
  moreover have "needed_segments ?cfg example_world (effective_length ?cfg None) = Inr 1"
    by (simp add: effective_length_def needed_segments_def int_quot_def float_exact_def
          trunc_quot_def default_cfg_def)
  ultimately show ?thesis using c by blast
qed

subsection \<open>C4: the low-disk prune\<close>

text \<open>
  C4. With the default configuration (capacity 36), forty live segments and 1.5 GB
  free under \<open>min_free_gb = 2\<close>, one iteration of the cleanup loop unlinks the four
  oldest segments for the capacity bound and then unlinks the same four paths again
  for low disk space, since both prunes read the listing taken at the start of the
  iteration: thirty-six segments remain, where four more deletions would leave
  thirty-two, and the warning reports four segments pruned.
\<close>

theorem low_disk_prune_repeats_capacity_prune:
  "capacity default_cfg (example_world\<lparr>free_bytes := 1610612736\<rparr>) = Inr 36
   \<and> cleanup_tick default_cfg (example_world\<lparr>free_bytes := 1610612736\<rparr>) 36 (map buf_seg [1..<41])
       = (map buf_seg [5..<41], [LogLowDisk 1610612736 4])
   \<and> length (map buf_seg [5..<41]) = 36"
proof -
  have ne: "map buf_seg [1..<41] \<noteq> []" by simp
  note t = tick_low_disk [OF low_world ne paths40 buf_segs_unlocked buf_segs_sorted, of 36]
  have "drop 4 (map buf_seg [1..<41]) = map buf_seg [5..<41]"
    by (simp add: drop_map)
  then show ?thesis using t default_capacity by simp
qed

subsection \<open>C5: the sanitization pipeline\<close>

text \<open>
  C5 (as amended). For every input, \<open>sanitize_filename_component\<close> gives the
  placeholder \<open>untitled\<close> when the trimmed input is empty; and whenever the trimmed
  input is empty or the filtering leaves at least one character, its result is the
  pipeline of the specification with the class of letters and digits read as \<open>\w\<close>
  (Unicode letters and digits, and the underscore). The output contains only word
  characters, hyphens and full stops, so of the ASCII characters only
  \<open>[A-Za-z0-9._-]\<close>; it contains no space and has at most 80 characters.
\<close>

theorem sanitize_word_pipeline:
  "(strip U s = [] \<longrightarrow> sanitize_filename_component U s = str ''untitled'')
   \<and> (strip U s = [] \<or> filter (kept U) (collapse_ws U (strip U s)) \<noteq> [] \<longrightarrow>
        sanitize_filename_component U s = sanitize_pipeline (is_word U) U s)
   \<and> (\<forall>c\<in>set (sanitize_filename_component U s).
        (is_word U c \<or> c = 45 \<or> c = 46) \<and> (c < 128 \<longrightarrow> filename_char c))
   \<and> 32 \<notin> set (sanitize_filename_component U s)
   \<and> length (sanitize_filename_component U s) \<le> 80"
  using sanitize_blank [of U s] sanitize_refines [of U s] sanitize_chars [of _ U s]
    word_ascii [of _ U] sanitize_no_space [of U s] sanitize_length [of U s]
  by blast

theorem sanitize_word_pipeline_witness:
  "filter (kept latin1_db)
      (collapse_ws latin1_db (strip latin1_db (str ''My Awesome Game: Level #1!''))) \<noteq> []
   \<and> sanitize_filename_component latin1_db (str ''My Awesome Game: Level #1!'') =
       str ''My_Awesome_Game_Level_1''
   \<and> sanitize_pipeline (is_word latin1_db) latin1_db (str ''My Awesome Game: Level #1!'') =
       str ''My_Awesome_Game_Level_1''
   \<and> filename_char (hd (sanitize_filename_component latin1_db (str ''My Awesome Game: Level #1!'')))
   \<and> length (sanitize_filename_component latin1_db (str ''My Awesome Game: Level #1!'')) \<le> 80
   \<and> strip latin1_db (str '' '') = []
   \<and> sanitize_filename_component latin1_db (str '' '') = str ''untitled''
   \<and> sanitize_pipeline (is_word latin1_db) latin1_db (str '' '') = str ''untitled''"
proof -
  let ?r = "sanitize_filename_component latin1_db (str ''My Awesome Game: Level #1!'')"
  have fne: "filter (kept latin1_db)
      (collapse_ws latin1_db (strip latin1_db (str ''My Awesome Game: Level #1!''))) \<noteq> []"
    by code_simp
  have ne: "?r \<noteq> []" unfolding example_title by (simp add: str_def)
  note t = sanitize_word_pipeline [of latin1_db "str ''My Awesome Game: Level #1!''"]
  have "hd ?r \<in> set ?r" using ne by simp
  moreover have "hd ?r < 128" unfolding example_title by (simp add: str_def)
  ultimately have f: "filename_char (hd ?r)" using t by blast
  from t fne have p: "?r = sanitize_pipeline (is_word latin1_db) latin1_db
      (str ''My Awesome Game: Level #1!'')"
    by blast
  have blank: "strip latin1_db (str '' '') = []" by code_simp
  note u = sanitize_word_pipeline [of latin1_db "str '' ''"]
  from u blank have b1: "sanitize_filename_component latin1_db (str '' '') = str ''untitled''"
    by blast
  from u blank b1 have b2:
    "sanitize_pipeline (is_word latin1_db) latin1_db (str '' '') = str ''untitled''"
    by metis
  from t have len: "length ?r \<le> 80" by blast
  from fne f len blank b1 b2 example_title example_title_pipeline show ?thesis
    by blast
qed

text \<open>
  The claim as stated fails on \<open>#\<close> (the code returns the empty string, the pipeline
  the placeholder), on \<open>a_b\<close> (the code keeps the underscore, the pipeline drops it)
  and on \<open>Caf\<close> followed by U+00E9 (kept by the code, outside \<open>[A-Za-z0-9._-]\<close>).
\<close>

theorem sanitize_pipeline_counterexample:
  "sanitize_filename_component latin1_db (str ''#'') = []
   \<and> sanitize_pipeline ascii_alnum latin1_db (str ''#'') = str ''untitled''
   \<and> sanitize_filename_component latin1_db (str ''a_b'') = str ''a_b''
   \<and> sanitize_pipeline ascii_alnum latin1_db (str ''a_b'') = str ''ab''
   \<and> sanitize_filename_component latin1_db [67, 97, 102, 233] = [67, 97, 102, 233]
   \<and> \<not> filename_char 233"
  by code_simp

subsection \<open>C6: idempotence of sanitization\<close>

text \<open>
  C6. On the input \<open>#\<close> the code returns the empty string, since the placeholder is
  substituted only before the filtering, and on the empty string it returns
  \<open>untitled\<close>: sanitizing twice differs from sanitizing once.
\<close>

theorem sanitize_twice_differs:
  "sanitize_filename_component latin1_db (str ''#'') = []
   \<and> sanitize_filename_component latin1_db
        (sanitize_filename_component latin1_db (str ''#'')) = str ''untitled''"
  by code_simp

subsection \<open>C7: the fallback path\<close>

text \<open>
  C7. Whenever the stream copy is reached (the segment count was computed, the
  free-space check passed, the buffer is not empty) and exits non-zero, \<open>save_clip\<close>
  logs the failure and runs the re-encode command right after the copy command. Both
  commands read the same manifest path after \<open>-i\<close> and end with the same output path;
  the re-encode has \<open>-y\<close> to overwrite and the configured encoder and preset where
  the copy has \<open>-c copy\<close>. If the re-encode exits with \<open>0\<close>, the call returns the clip
  path and sends the one notification, exactly as it does when the copy succeeds. If
  the re-encode exits non-zero too, the call fails: it returns \<open>None\<close>, sends no
  notification, and logs the \<open>CalledProcessError\<close> with the exit status and the
  command.
\<close>

theorem fallback_after_failed_copy:
  assumes "needed_segments cfg w (effective_length cfg d) = Inr m"
    and "\<not> insufficient_space w" and "entries w \<noteq> []"
    and "copy_proc w = Exited c" and "c \<noteq> 0"
  shows "(\<exists>pre post. trace (save_clip cfg w d) =
            pre @ [WriteFile (tmp_path w) (map manifest_line (chosen_segments m (entries w))),
                   Log INFO (str ''Assembling clip ('' @ show_int (effective_length cfg d)
                               @ str ''s) -> '' @ clip_filename cfg w (effective_length cfg d)),
                   Run (copy_cmd cfg (tmp_path w) (out_path cfg w (effective_length cfg d))),
                   Log WARNING (str ''Fast concat failed; retrying with re-encode...''),
                   Run (reenc_cmd cfg (tmp_path w) (out_path cfg w (effective_length cfg d)))] @ post)
       \<and> copy_cmd cfg (tmp_path w) (out_path cfg w (effective_length cfg d)) =
           [ffmpeg_path cfg, str ''-y'', str ''-f'', str ''concat'', str ''-safe'', str ''0'',
            str ''-i'', tmp_path w, str ''-c'', str ''copy'', str ''-movflags'',
            str ''+faststart'', out_path cfg w (effective_length cfg d)]
       \<and> reenc_cmd cfg (tmp_path w) (out_path cfg w (effective_length cfg d)) =
           [ffmpeg_path cfg, str ''-y'', str ''-f'', str ''concat'', str ''-safe'', str ''0'',
            str ''-i'', tmp_path w, str ''-c:v'', encoder cfg, str ''-preset'', preset cfg,
            str ''-pix_fmt'', str ''yuv420p'', out_path cfg w (effective_length cfg d)]
       \<and> (reenc_proc w = Exited 0 \<longrightarrow>
            outcome (save_clip cfg w d) = Returned (Some (out_path cfg w (effective_length cfg d)))
          \<and> outcome (save_clip cfg w d) = outcome (save_clip cfg (w\<lparr>copy_proc := Exited 0\<rparr>) d)
          \<and> notifications (trace (save_clip cfg w d)) =
              notifications (trace (save_clip cfg (w\<lparr>copy_proc := Exited 0\<rparr>) d))
          \<and> notifications (trace (save_clip cfg w d)) =
              [str ''Clip saved: '' @ out_path cfg w (effective_length cfg d)])
       \<and> (\<forall>c'. reenc_proc w = Exited c' \<and> c' \<noteq> 0 \<longrightarrow>
            outcome (save_clip cfg w d) = Returned None
          \<and> LogException (str ''Failed to assemble clip: %s'')
               (CalledProcessError c'
                 (reenc_cmd cfg (tmp_path w) (out_path cfg w (effective_length cfg d))))
              \<in> set (trace (save_clip cfg w d))
          \<and> notifications (trace (save_clip cfg w d)) = [])"
proof -
  let ?w' = "w\<lparr>copy_proc := Exited 0\<rparr>"
  let ?out = "out_path cfg w (effective_length cfg d)"
  let ?t0 = "(if psutil w then [DiskUsage (clips_dir cfg)] else []) @ [Glob (buffer_dir cfg)]"
  note sc = save_clip_assembles [OF assms(1-3)]
  have ins': "\<not> insufficient_space ?w'" using assms(2) by (simp add: insufficient_space_def)
  have n': "needed_segments cfg ?w' (effective_length cfg d) = Inr m"
    using assms(1) by (simp add: needed_segments_def)
  have sc': "save_clip cfg ?w' d = assemble cfg ?w' (effective_length cfg d)
       (chosen_segments m (entries w)) ?t0"
    using save_clip_assembles [OF n' ins'] assms(3) by simp
  have out': "out_path cfg ?w' (effective_length cfg d) = ?out"
    by (simp add: out_path_def clip_filename_def)
  have ok': "notifications (trace (save_clip cfg ?w' d)) = [str ''Clip saved: '' @ ?out]
      \<and> outcome (save_clip cfg ?w' d) = Returned (Some ?out)"
    by (simp add: sc' assemble_copy_ok out')
  have 1: "\<exists>pre post. trace (save_clip cfg w d) =
            pre @ [WriteFile (tmp_path w) (map manifest_line (chosen_segments m (entries w))),
                   Log INFO (str ''Assembling clip ('' @ show_int (effective_length cfg d)
                               @ str ''s) -> '' @ clip_filename cfg w (effective_length cfg d)),
                   Run (copy_cmd cfg (tmp_path w) ?out),
                   Log WARNING (str ''Fast concat failed; retrying with re-encode...''),
                   Run (reenc_cmd cfg (tmp_path w) ?out)] @ post"
  proof (cases "reenc_proc w")
    case (Exited c')
    show ?thesis
    proof (cases "c' = 0")
      case True
      show ?thesis
        unfolding sc assemble_reenc_ok [OF assms(4,5) Exited [unfolded True]]
        by (intro exI [of _ "?t0 @ [Mkdir (clips_dir cfg)]"] exI) simp
    next
      case False
      show ?thesis
        unfolding sc assemble_reenc_fail [OF assms(4,5) Exited False]
        by (intro exI [of _ "?t0 @ [Mkdir (clips_dir cfg)]"] exI) simp
    qed
  next
    case SpawnFailed
    show ?thesis
      unfolding sc assemble_reenc_spawn [OF assms(4,5) SpawnFailed]
      by (intro exI [of _ "?t0 @ [Mkdir (clips_dir cfg)]"] exI) simp
  qed
  have 2: "copy_cmd cfg (tmp_path w) ?out =
           [ffmpeg_path cfg, str ''-y'', str ''-f'', str ''concat'', str ''-safe'', str ''0'',
            str ''-i'', tmp_path w, str ''-c'', str ''copy'', str ''-movflags'',
            str ''+faststart'', ?out]"
    "reenc_cmd cfg (tmp_path w) ?out =
           [ffmpeg_path cfg, str ''-y'', str ''-f'', str ''concat'', str ''-safe'', str ''0'',
            str ''-i'', tmp_path w, str ''-c:v'', encoder cfg, str ''-preset'', preset cfg,
            str ''-pix_fmt'', str ''yuv420p'', ?out]"
    by (simp_all only: copy_cmd_def reenc_cmd_def)
  have 3: "reenc_proc w = Exited 0 \<Longrightarrow>
      outcome (save_clip cfg w d) = Returned (Some ?out)
      \<and> notifications (trace (save_clip cfg w d)) = [str ''Clip saved: '' @ ?out]"
    by (simp add: sc assemble_reenc_ok [OF assms(4,5)])
  have 4: "\<And>c'. reenc_proc w = Exited c' \<Longrightarrow> c' \<noteq> 0 \<Longrightarrow>
      outcome (save_clip cfg w d) = Returned None
      \<and> LogException (str ''Failed to assemble clip: %s'')
               (CalledProcessError c' (reenc_cmd cfg (tmp_path w) ?out))
              \<in> set (trace (save_clip cfg w d))
      \<and> notifications (trace (save_clip cfg w d)) = []"
    by (simp add: sc assemble_reenc_fail [OF assms(4,5)])
  from 1 2 3 4 ok' show ?thesis by simp
qed

theorem fallback_after_failed_copy_witness:
  "needed_segments default_cfg (example_world\<lparr>copy_proc := Exited 1\<rparr>)
      (effective_length default_cfg (Some 120)) = Inr 12
   \<and> \<not> insufficient_space (example_world\<lparr>copy_proc := Exited 1\<rparr>)
   \<and> entries (example_world\<lparr>copy_proc := Exited 1\<rparr>) \<noteq> []
   \<and> copy_proc (example_world\<lparr>copy_proc := Exited 1\<rparr>) = Exited 1 \<and> (1::int) \<noteq> 0
   \<and> reenc_proc (example_world\<lparr>copy_proc := Exited 1\<rparr>) = Exited 0
   \<and> outcome (save_clip default_cfg (example_world\<lparr>copy_proc := Exited 1\<rparr>) (Some 120)) =
       Returned (Some (out_path default_cfg (example_world\<lparr>copy_proc := Exited 1\<rparr>)
                        (effective_length default_cfg (Some 120))))
   \<and> notifications (trace (save_clip default_cfg (example_world\<lparr>copy_proc := Exited 1\<rparr>) (Some 120))) =
       notifications (trace (save_clip default_cfg
          (example_world\<lparr>copy_proc := Exited 1, copy_proc := Exited 0\<rparr>) (Some 120)))
   \<and> needed_segments default_cfg (example_world\<lparr>copy_proc := Exited 1, reenc_proc := Exited 1\<rparr>)
      (effective_length default_cfg (Some 120)) = Inr 12
   \<and> reenc_proc (example_world\<lparr>copy_proc := Exited 1, reenc_proc := Exited 1\<rparr>) = Exited 1
   \<and> outcome (save_clip default_cfg (example_world\<lparr>copy_proc := Exited 1, reenc_proc := Exited 1\<rparr>)
        (Some 120)) = Returned None
   \<and> notifications (trace (save_clip default_cfg
        (example_world\<lparr>copy_proc := Exited 1, reenc_proc := Exited 1\<rparr>) (Some 120))) = []"
proof -
  have ne: "(1::int) \<noteq> 0" by simp
  note a = fallback_after_failed_copy [OF default_needed(1) failing_copy_world(1,2,3) ne]
  note b = fallback_after_failed_copy [OF default_needed(1) failing_copy_world(5,6,7) ne]
  from a b default_needed(1) failing_copy_world ne show ?thesis by blast
qed

subsection \<open>C8: the manifest is removed\<close>

text \<open>
  C8 (as amended). On every exit of \<open>save_clip\<close> after the manifest was written, by
  a return or by an exception of the process call, the last operation is the unlink
  of the manifest, and the manifest is gone unless that unlink raises; an unlink
  that raises is swallowed and leaves the manifest in the buffer directory.
\<close>

theorem manifest_unlink_on_every_exit:
  assumes "WriteFile p ls \<in> set (trace (save_clip cfg w d))"
  shows "last (trace (save_clip cfg w d)) = Unlink (tmp_path w)
       \<and> (\<not> unlink_raises w \<longrightarrow> temp_files (save_clip cfg w d) = [])
       \<and> (unlink_raises w \<longrightarrow> temp_files (save_clip cfg w d) = [tmp_path w])"
proof -
  from write_means_assembled [OF assms]
  obtain m where "needed_segments cfg w (effective_length cfg d) = Inr m"
    and "\<not> insufficient_space w" and "entries w \<noteq> []"
    by blast
  then show ?thesis
    by (simp add: save_clip_assembles assemble_last_unlink assemble_temp_files)
qed

theorem manifest_unlink_on_every_exit_witness:
  "WriteFile (tmp_path (example_world\<lparr>copy_proc := Exited 1, reenc_proc := Exited 1\<rparr>))
      (map manifest_line (chosen_segments 12
         (entries (example_world\<lparr>copy_proc := Exited 1, reenc_proc := Exited 1\<rparr>))))
     \<in> set (trace (save_clip default_cfg
                (example_world\<lparr>copy_proc := Exited 1, reenc_proc := Exited 1\<rparr>) (Some 120)))
   \<and> unlink_raises (example_world\<lparr>copy_proc := Exited 1, reenc_proc := Exited 1\<rparr>) = False
   \<and> last (trace (save_clip default_cfg
                (example_world\<lparr>copy_proc := Exited 1, reenc_proc := Exited 1\<rparr>) (Some 120))) =
       Unlink (str ''buffer/tmpk3x9.txt'')
   \<and> temp_files (save_clip default_cfg
                (example_world\<lparr>copy_proc := Exited 1, reenc_proc := Exited 1\<rparr>) (Some 120)) = []
   \<and> WriteFile (tmp_path (example_world\<lparr>reenc_proc := SpawnFailed, unlink_raises := True\<rparr>))
      (map manifest_line (chosen_segments 12
         (entries (example_world\<lparr>reenc_proc := SpawnFailed, unlink_raises := True\<rparr>))))
     \<in> set (trace (save_clip default_cfg
                (example_world\<lparr>reenc_proc := SpawnFailed, unlink_raises := True\<rparr>) None))
   \<and> unlink_raises (example_world\<lparr>reenc_proc := SpawnFailed, unlink_raises := True\<rparr>)
   \<and> last (trace (save_clip default_cfg
                (example_world\<lparr>reenc_proc := SpawnFailed, unlink_raises := True\<rparr>) None)) =
       Unlink (str ''buffer/tmpk3x9.txt'')
   \<and> temp_files (save_clip default_cfg
                (example_world\<lparr>reenc_proc := SpawnFailed, unlink_raises := True\<rparr>) None) =
       [str ''buffer/tmpk3x9.txt'']"
proof -
  let ?w = "example_world\<lparr>copy_proc := Exited 1, reenc_proc := Exited 1\<rparr>"
  let ?v = "example_world\<lparr>reenc_proc := SpawnFailed, unlink_raises := True\<rparr>"
  note h = save_clip_writes_manifest [OF default_needed(1) failing_copy_world(5,6)]
  note t = manifest_unlink_on_every_exit [OF h]
  have w: "unlink_raises ?w = False" "tmp_path ?w = str ''buffer/tmpk3x9.txt''"
    by (simp_all add: example_world_sel)
  have v: "\<not> insufficient_space ?v" "entries ?v \<noteq> []"
    "unlink_raises ?v" "tmp_path ?v = str ''buffer/tmpk3x9.txt''"
    by (simp_all add: insufficient_space_def example_world_sel space_floor_def)
  note g = save_clip_writes_manifest [OF default_needed(5) v(1,2)]
  note u = manifest_unlink_on_every_exit [OF g]
  from t h w u g v(3,4) show ?thesis by metis
qed

text \<open>
  The claim as stated fails when unlinking raises: the fast path returns the clip and
  the manifest is still there.
\<close>

theorem manifest_unlink_counterexample:
  "outcome (save_clip default_cfg (example_world\<lparr>unlink_raises := True\<rparr>) (Some 120)) =
     Returned (Some (str ''clips/20240101_120000_120s_My_Awesome_Game_Level_1.mp4''))
   \<and> temp_files (save_clip default_cfg (example_world\<lparr>unlink_raises := True\<rparr>) (Some 120)) =
       [str ''buffer/tmpk3x9.txt'']"
proof -
  let ?w = "example_world\<lparr>unlink_raises := True\<rparr>"
  have a: "\<not> insufficient_space ?w" "entries ?w \<noteq> []" "copy_proc ?w = Exited 0"
    "unlink_raises ?w" "tmp_path ?w = str ''buffer/tmpk3x9.txt''"
    by (simp_all add: insufficient_space_def example_world_sel space_floor_def)
  have o: "out_path default_cfg ?w 120 = out_path default_cfg example_world 120"
    by (simp add: out_path_def clip_filename_def)
  show ?thesis
    using save_clip_copy_ok [OF default_needed(1) a(1,2,3)] a(4,5)
    by (simp add: save_clip_assembles [OF default_needed(1) a(1,2)] assemble_temp_files
          example_lengths o example_out_120)
qed

subsection \<open>C9: the free-space floor\<close>

text \<open>
  C9 (as amended). When psutil is available, the usage query answers and reports
  less than 300 MB free, and the segment count was computed (the division did not
  raise), \<open>save_clip\<close> probes the disk, logs the error and returns \<open>None\<close>, the way
  this code reports every failure, and does nothing else: no listing, no manifest, no
  process, no unlink. It returns normally, so nothing stops the recorder. When psutil
  is missing or the query raises, the check is skipped (C10).
\<close>

theorem insufficient_space_fails_fast:
  assumes "needed_segments cfg w (effective_length cfg d) = Inr m"
    and "psutil w" and "\<not> usage_raises w" and "free_bytes w < 300 * 1024 * 1024"
  shows "save_clip cfg w d =
     \<lparr> outcome = Returned None,
       trace = [DiskUsage (clips_dir cfg), Log ERROR (str ''Insufficient free space to save clip.'')],
       temp_files = [] \<rparr>"
  using assms(2-4)
  by (intro save_clip_blocked [OF assms(1)]) (simp add: insufficient_space_def space_floor_def)

theorem insufficient_space_fails_fast_witness:
  "needed_segments default_cfg (example_world\<lparr>free_bytes := 104857600\<rparr>)
      (effective_length default_cfg (Some 120)) = Inr 12
   \<and> psutil (example_world\<lparr>free_bytes := 104857600\<rparr>)
   \<and> usage_raises (example_world\<lparr>free_bytes := 104857600\<rparr>) = False
   \<and> free_bytes (example_world\<lparr>free_bytes := 104857600\<rparr>) < 300 * 1024 * 1024
   \<and> save_clip default_cfg (example_world\<lparr>free_bytes := 104857600\<rparr>) (Some 120) =
       \<lparr> outcome = Returned None,
         trace = [DiskUsage (clips_dir default_cfg),
                  Log ERROR (str ''Insufficient free space to save clip.'')],
         temp_files = [] \<rparr>"
proof -
  have h: "psutil (example_world\<lparr>free_bytes := 104857600\<rparr>)"
    "\<not> usage_raises (example_world\<lparr>free_bytes := 104857600\<rparr>)"
    "free_bytes (example_world\<lparr>free_bytes := 104857600\<rparr>) < 300 * 1024 * 1024"
    by (simp_all add: example_world_sel)
  note t = insufficient_space_fails_fast [OF default_needed(1) h]
  from t default_needed(1) h show ?thesis by blast
qed

text \<open>
  The claim as stated fails when the usage query raises, as it does while the clips
  directory does not exist yet, and when psutil is missing: with no free space at all
  the buffer is listed and the clip assembled.
\<close>

theorem insufficient_space_counterexample:
  "free_bytes (example_world\<lparr>usage_raises := True, free_bytes := 0\<rparr>) = 0
   \<and> outcome (save_clip default_cfg (example_world\<lparr>usage_raises := True, free_bytes := 0\<rparr>)
        (Some 120)) =
       Returned (Some (str ''clips/20240101_120000_120s_My_Awesome_Game_Level_1.mp4''))
   \<and> Glob (str ''buffer'')
       \<in> set (trace (save_clip default_cfg (example_world\<lparr>usage_raises := True, free_bytes := 0\<rparr>)
                 (Some 120)))
   \<and> outcome (save_clip default_cfg (example_world\<lparr>psutil := False, free_bytes := 0\<rparr>)
        (Some 120)) =
       Returned (Some (str ''clips/20240101_120000_120s_My_Awesome_Game_Level_1.mp4''))"
proof -
  let ?w = "example_world\<lparr>usage_raises := True, free_bytes := 0\<rparr>"
  let ?v = "example_world\<lparr>psutil := False, free_bytes := 0\<rparr>"
  have a: "\<not> insufficient_space ?w" "entries ?w \<noteq> []" "copy_proc ?w = Exited 0"
    "\<not> insufficient_space ?v" "entries ?v \<noteq> []" "copy_proc ?v = Exited 0"
    by (simp_all add: insufficient_space_def example_world_sel)
  have o: "out_path default_cfg ?w 120 = out_path default_cfg example_world 120"
    "out_path default_cfg ?v 120 = out_path default_cfg example_world 120"
    by (simp_all add: out_path_def clip_filename_def)
  show ?thesis
    using save_clip_copy_ok [OF default_needed(1) a(1,2,3)]
      save_clip_copy_ok [OF default_needed(1) a(4,5,6)]
      save_clip_lists_segments [OF default_needed(1) a(1)]
    by (simp add: example_lengths o example_out_120 default_cfg_sel)
qed

subsection \<open>C10: without a disk-usage probe\<close>

text \<open>
  C10. When psutil was not imported or the usage query raises, \<open>save_clip\<close> does
  the same whatever the free space is, never reports insufficient space and, whenever
  the segment count was computed (\<open>segment_time\<close> not zero and the quotient within the
  range of a float, in particular below \<open>2^53\<close>), goes on to list the buffer; and an
  iteration of the cleanup loop is the capacity prune alone, with no low-disk warning.
\<close>

theorem free_space_checks_skipped_without_probe:
  assumes "\<not> psutil w \<or> usage_raises w"
  shows "save_clip cfg (w\<lparr>free_bytes := f\<rparr>) d = save_clip cfg w d
       \<and> Log ERROR (str ''Insufficient free space to save clip.'') \<notin> set (trace (save_clip cfg w d))
       \<and> (\<forall>m. needed_segments cfg w (effective_length cfg d) = Inr m \<longrightarrow>
            Glob (buffer_dir cfg) \<in> set (trace (save_clip cfg w d)))
       \<and> (segment_time cfg \<noteq> 0
            \<and> float_exact (effective_length cfg d + segment_time cfg - 1) (segment_time cfg) \<longrightarrow>
            Glob (buffer_dir cfg) \<in> set (trace (save_clip cfg w d)))
       \<and> cleanup_tick cfg w cap dir =
           (if int (length dir) > cap
            then prune_each (map seg_path (take (nat (int (length dir) - cap)) (sort_key st_mtime dir))) dir
            else dir, [])"
proof -
  have a: "\<not> insufficient_space w" using assms by (auto simp: insufficient_space_def)
  have b: "\<not> low_disk cfg w" using assms by (auto simp: low_disk_def)
  have c: "\<And>m. needed_segments cfg w (effective_length cfg d) = Inr m \<Longrightarrow>
      Glob (buffer_dir cfg) \<in> set (trace (save_clip cfg w d))"
    using save_clip_lists_segments [OF _ a] .
  have e: "segment_time cfg \<noteq> 0 \<Longrightarrow>
      float_exact (effective_length cfg d + segment_time cfg - 1) (segment_time cfg) \<Longrightarrow>
      Glob (buffer_dir cfg) \<in> set (trace (save_clip cfg w d))"
    using c needed_exact [of cfg "effective_length cfg d" w] by blast
  show ?thesis
    using save_clip_free_irrelevant [OF assms] no_insufficient_report [OF a] c e
      tick_without_low_disk [OF b]
    by blast
qed

theorem free_space_checks_skipped_witness:
  "psutil (example_world\<lparr>psutil := False, free_bytes := 0\<rparr>) = False
   \<and> segment_time default_cfg \<noteq> 0
   \<and> float_exact (effective_length default_cfg (Some 120) + segment_time default_cfg - 1)
        (segment_time default_cfg)
   \<and> needed_segments default_cfg (example_world\<lparr>psutil := False, free_bytes := 0\<rparr>)
        (effective_length default_cfg (Some 120)) = Inr 12
   \<and> save_clip default_cfg (example_world\<lparr>psutil := False, free_bytes := 0, free_bytes := 10737418240\<rparr>)
        (Some 120) =
       save_clip default_cfg (example_world\<lparr>psutil := False, free_bytes := 0\<rparr>) (Some 120)
   \<and> Log ERROR (str ''Insufficient free space to save clip.'')
       \<notin> set (trace (save_clip default_cfg (example_world\<lparr>psutil := False, free_bytes := 0\<rparr>) (Some 120)))
   \<and> Glob (buffer_dir default_cfg)
       \<in> set (trace (save_clip default_cfg (example_world\<lparr>psutil := False, free_bytes := 0\<rparr>) (Some 120)))
   \<and> snd (cleanup_tick default_cfg (example_world\<lparr>psutil := False, free_bytes := 0\<rparr>) 36
            (map buf_seg [1..<41])) = []"
proof -
  let ?w = "example_world\<lparr>psutil := False, free_bytes := 0\<rparr>"
  have h: "\<not> psutil ?w \<or> usage_raises ?w" by simp
  have p: "psutil ?w = False" by simp
  have nz: "segment_time default_cfg \<noteq> 0" by (simp add: default_cfg_sel)
  have x: "float_exact (effective_length default_cfg (Some 120) + segment_time default_cfg - 1)
        (segment_time default_cfg)"
    unfolding example_lengths by (rule example_exact)
  note t = free_space_checks_skipped_without_probe [OF h, of default_cfg 10737418240 "Some 120" 36
      "map buf_seg [1..<41]"]
  from t have "snd (cleanup_tick default_cfg ?w 36 (map buf_seg [1..<41])) = []" by simp
  with t p nz x default_needed(1) show ?thesis by blast
qed

end
